theory Spec2Isabelle
  imports Complex_Main "HOL-Library.AList"
begin

section \<open>Python values used by \<open>eval_gr00t_so100.py\<close>\<close>

text \<open>
  Exceptions are values. \<open>LibraryError\<close> stands for any exception derived from Python's
  \<open>Exception\<close> that a library call raises; \<open>KeyboardInterrupt\<close> stands for the
  exceptions that derive from \<open>BaseException\<close> only, which an \<open>except Exception\<close>
  clause does not catch.
\<close>

datatype exn =
    FileNotFoundError
  | RobotDeviceAlreadyConnectedError
  | KeyError string
  | IndexError
  | ZeroDivisionError
  | AssertionError
  | ValueError
  | TypeError
  | LibraryError string
  | KeyboardInterrupt

fun is_Exception :: "exn \<Rightarrow> bool" where
  "is_Exception KeyboardInterrupt = False"
| "is_Exception e = True"

text \<open>Sequencing of computations that may raise: the first exception wins.\<close>

definition bind_e :: "exn + 'a \<Rightarrow> ('a \<Rightarrow> exn + 'b) \<Rightarrow> exn + 'b" where
  "bind_e r f = (case r of Inl e \<Rightarrow> Inl e | Inr x \<Rightarrow> f x)"

text \<open>
  A Python \<open>dict\<close> is an association list with distinct keys, in insertion order.
  \<open>d[k]\<close> raises \<open>KeyError\<close> on a missing key.
\<close>

definition getkey :: "(string \<times> 'v) list \<Rightarrow> string \<Rightarrow> exn + 'v" where
  "getkey d k = (case map_of d k of None \<Rightarrow> Inl (KeyError k) | Some v \<Rightarrow> Inr v)"

text \<open>
  A dict display \<open>{k1: e1, k2: e2, ...}\<close> evaluates its entries in order; the first entry
  that raises ends the evaluation.
\<close>

fun dict_display :: "(string \<times> (exn + 'v)) list \<Rightarrow> exn + (string \<times> 'v) list" where
  "dict_display [] = Inr []"
| "dict_display ((k, r) # rest) =
     (case r of
        Inl e \<Rightarrow> Inl e
      | Inr v \<Rightarrow> (case dict_display rest of Inl e \<Rightarrow> Inl e | Inr d \<Rightarrow> Inr ((k, v) # d)))"

subsection \<open>Arrays and tensors\<close>

text \<open>
  A numpy array or torch tensor is its element type, its shape and its elements in row-major
  order. Element values are reals; widening to \<open>float64\<close> keeps every value.
\<close>

datatype dtype = UInt8 | Float32 | Float64

record ndarray =
  dtype :: dtype
  shape :: "nat list"
  data :: "real list"

text \<open>\<open>a[i]\<close> for an index \<open>i \<ge> 0\<close>.\<close>

definition getitem :: "ndarray \<Rightarrow> nat \<Rightarrow> exn + ndarray" where
  "getitem a i =
     (case shape a of
        [] \<Rightarrow> Inl IndexError
      | n # sh \<Rightarrow>
          if i < n
          then Inr (a\<lparr>shape := sh,
                      data := take (prod_list sh) (drop (i * prod_list sh) (data a))\<rparr>)
          else Inl IndexError)"

text \<open>\<open>a[lo:hi]\<close> for bounds \<open>lo, hi \<ge> 0\<close>: the bounds are clipped to the first axis.\<close>

definition getslice :: "ndarray \<Rightarrow> nat \<Rightarrow> nat \<Rightarrow> exn + ndarray" where
  "getslice a lo hi =
     (case shape a of
        [] \<Rightarrow> Inl IndexError
      | n # sh \<Rightarrow>
          (let lo' = min lo n; hi' = min hi n; len = hi' - lo'
           in Inr (a\<lparr>shape := len # sh,
                       data := take (len * prod_list sh) (drop (lo' * prod_list sh) (data a))\<rparr>)))"

text \<open>
  \<open>a[np.newaxis, :, ..., :]\<close> with \<open>k\<close> full slices: needs at least \<open>k\<close> axes and puts
  an axis of size 1 in front.
\<close>

definition newaxis :: "nat \<Rightarrow> ndarray \<Rightarrow> exn + ndarray" where
  "newaxis k a = (if length (shape a) < k then Inl IndexError else Inr (a\<lparr>shape := 1 # shape a\<rparr>))"

definition astype :: "dtype \<Rightarrow> ndarray \<Rightarrow> ndarray" where
  "astype t a = a\<lparr>dtype := t\<rparr>"

definition atleast_1d :: "ndarray \<Rightarrow> ndarray" where
  "atleast_1d a = (if shape a = [] then a\<lparr>shape := [1]\<rparr> else a)"

fun promote :: "dtype \<Rightarrow> dtype \<Rightarrow> dtype" where
  "promote Float64 t = Float64"
| "promote t Float64 = Float64"
| "promote Float32 t = Float32"
| "promote t Float32 = Float32"
| "promote UInt8 UInt8 = UInt8"

text \<open>
  \<open>np.concatenate(as, axis=0)\<close>: every array needs at least one axis and all must agree
  on the axes after the first.
\<close>

definition concatenate :: "ndarray list \<Rightarrow> exn + ndarray" where
  "concatenate as =
     (case as of
        [] \<Rightarrow> Inl ValueError
      | a # rest \<Rightarrow>
          if list_all (\<lambda>b. shape b \<noteq> [] \<and> tl (shape b) = tl (shape a)) as
          then Inr \<lparr>dtype = foldr promote (map dtype rest) (dtype a),
                    shape = sum_list (map (\<lambda>b. hd (shape b)) as) # tl (shape a),
                    data = concat (map data as)\<rparr>
          else Inl ValueError)"

text \<open>\<open>t.repeat(k)\<close> of a one-dimensional torch tensor.\<close>

definition repeat :: "ndarray \<Rightarrow> nat \<Rightarrow> ndarray" where
  "repeat t k = t\<lparr>shape := [k * prod_list (shape t)], data := concat (replicate k (data t))\<rparr>"

section \<open>\<open>view_imgs\<close>: the display grid\<close>

text \<open>An image may be \<open>None\<close>: \<open>get_current_img\<close> returns it for an unknown camera.\<close>

datatype imgs_arg = ImgDict "(string \<times> ndarray option) list" | ImgList "ndarray option list"

text \<open>\<open>if isinstance(imgs, dict): imgs = [img for img in imgs.values()]\<close>\<close>

fun imgs_list :: "imgs_arg \<Rightarrow> ndarray option list" where
  "imgs_list (ImgDict d) = map snd d"
| "imgs_list (ImgList l) = l"

text \<open>
  \<open>cols = min(3, num_imgs); rows = (num_imgs + cols - 1) // cols\<close>. Python's \<open>//\<close>
  raises on a zero divisor.
\<close>

definition view_imgs_grid :: "int \<Rightarrow> exn + (int \<times> int)" where
  "view_imgs_grid num_imgs =
     (let cols = min 3 num_imgs
      in if cols = 0 then Inl ZeroDivisionError
         else Inr ((num_imgs + cols - 1) div cols, cols))"

section \<open>The outside world: robot library, policy server, plotting, logging, clock\<close>

text \<open>
  Every call that leaves the script is recorded, with its arguments, in the order it is made.
  \<open>BusWrite arm register value\<close> is \<open>arm.write(register, value)\<close> on the motor bus of
  the follower arm of that name; \<open>RrLog path i v\<close> is \<open>rr.log(f"{path}{i}", rr.Scalar(v))\<close>.
  Calls to \<open>print\<close> and the readings of \<open>time.time()\<close> are left out.
\<close>

datatype obs_entry = Arr ndarray | Text "string list"

type_synonym obs_dict = "(string \<times> obs_entry) list"

type_synonym observation = "(string \<times> ndarray) list"

type_synonym action = "(string \<times> ndarray) list"

datatype call =
    RobotConnect
  | RobotDisconnect
  | CaptureObservation
  | SendAction ndarray
  | BusWrite string string int
  | BusRead string string
  | PolicyGetAction obs_dict
  | Sleep real
  | PltSubplot int int int
  | PltImshow "ndarray option"
  | PltAxis string
  | PltPause real
  | PltClf
  | RrSetTimeSeconds string
  | RrLog string nat ndarray

text \<open>
  What the libraries answer is a parameter of the model. Each answer may depend on all calls
  made so far (the last one being the call that is answered), and a call may raise.
\<close>

record world =
  capture_observation_result :: "call list \<Rightarrow> exn + observation"
  get_action_result :: "call list \<Rightarrow> exn + action"
  call_raises :: "call list \<Rightarrow> exn option"
  cvtColor_BGR2RGB :: "ndarray \<Rightarrow> exn + ndarray"
  TorqueMode_ENABLED :: int
  TorqueMode_DISABLED :: int

text \<open>
  The state the script changes: the \<open>is_connected\<close> attribute of the underlying robot
  object and the calls made so far.
\<close>

record state =
  is_connected :: bool
  calls :: "call list"

type_synonym 'a prog = "state \<Rightarrow> (exn + 'a) \<times> state"

definition return :: "'a \<Rightarrow> 'a prog" where
  "return x = (\<lambda>s. (Inr x, s))"

definition raise :: "exn \<Rightarrow> 'a prog" where
  "raise e = (\<lambda>s. (Inl e, s))"

definition lift :: "exn + 'a \<Rightarrow> 'a prog" where
  "lift r = (\<lambda>s. (r, s))"

definition bind :: "'a prog \<Rightarrow> ('a \<Rightarrow> 'b prog) \<Rightarrow> 'b prog" where
  "bind m f = (\<lambda>s. case m s of (Inl e, s') \<Rightarrow> (Inl e, s') | (Inr x, s') \<Rightarrow> f x s')"

text \<open>\<open>for x in xs: body\<close>; an exception in the body ends the loop.\<close>

fun for_each :: "'a list \<Rightarrow> ('a \<Rightarrow> unit prog) \<Rightarrow> unit prog" where
  "for_each [] body = return ()"
| "for_each (x # xs) body = bind (body x) (\<lambda>_. for_each xs body)"

text \<open>The same loop around a variable that the body updates.\<close>

fun for_acc :: "'a list \<Rightarrow> 'b \<Rightarrow> ('a \<Rightarrow> 'b \<Rightarrow> 'b prog) \<Rightarrow> 'b prog" where
  "for_acc [] acc body = return acc"
| "for_acc (x # xs) acc body = bind (body x acc) (\<lambda>acc'. for_acc xs acc' body)"

text \<open>\<open>try: m  except Exception as e: handler(e)\<close>\<close>

definition try_except_Exception :: "'a prog \<Rightarrow> (exn \<Rightarrow> 'a prog) \<Rightarrow> 'a prog" where
  "try_except_Exception m handler =
     (\<lambda>s. case m s of
            (Inl e, s') \<Rightarrow> if is_Exception e then handler e s' else (Inl e, s')
          | (Inr x, s') \<Rightarrow> (Inr x, s'))"

text \<open>
  \<open>try: m  finally: fin\<close>: \<open>fin\<close> runs whatever \<open>m\<close> did; an exception of \<open>fin\<close>
  replaces the outcome of \<open>m\<close>.
\<close>

definition try_finally :: "'a prog \<Rightarrow> unit prog \<Rightarrow> 'a prog" where
  "try_finally m fin =
     (\<lambda>s. case m s of
            (r, s1) \<Rightarrow> (case fin s1 of (Inl e, s2) \<Rightarrow> (Inl e, s2) | (Inr _, s2) \<Rightarrow> (r, s2)))"

definition ext_call :: "world \<Rightarrow> call \<Rightarrow> unit prog" where
  "ext_call w c =
     (\<lambda>s. let h = calls s @ [c]
          in (case call_raises w h of Some e \<Rightarrow> Inl e | None \<Rightarrow> Inr (), s\<lparr>calls := h\<rparr>))"

definition ext_capture_observation :: "world \<Rightarrow> observation prog" where
  "ext_capture_observation w =
     (\<lambda>s. let h = calls s @ [CaptureObservation]
          in (capture_observation_result w h, s\<lparr>calls := h\<rparr>))"

definition ext_policy_get_action :: "world \<Rightarrow> obs_dict \<Rightarrow> action prog" where
  "ext_policy_get_action w obs =
     (\<lambda>s. let h = calls s @ [PolicyGetAction obs]
          in (get_action_result w h, s\<lparr>calls := h\<rparr>))"

section \<open>\<open>SO100Robot\<close>\<close>

text \<open>
  The objects of the robot library, with the attributes the script reads. A motor bus is
  known to the script by its \<open>motor_names\<close>; a camera device is made from its configuration.
\<close>

datatype camera_config = OpenCVCameraConfig nat

datatype camera = OpenCVCamera camera_config

record motor_bus =
  motor_names :: "string list"

record config =
  calibration_dir :: string
  config_cameras :: "(string \<times> camera_config) list"

record robot =
  follower_arms :: "(string \<times> motor_bus) list"
  leader_arms :: "(string \<times> motor_bus) list"
  cameras :: "(string \<times> camera) list"

text \<open>An entry of \<open>motor_indices\<close>: the keys \<open>"start"\<close>, \<open>"end"\<close>, \<open>"motor_names"\<close>.\<close>

record motor_index =
  start_entry :: nat
  end_entry :: nat
  motor_names_entry :: "string list"

text \<open>
  \<open>self.follower_arms\<close> and \<open>self.leader_arms\<close> are the dicts of \<open>self.robot\<close>
  themselves, so they are read through \<open>robot\<close>.
\<close>

record SO100Robot =
  config :: config
  enable_camera :: bool
  robot :: robot
  motor_indices :: "(string \<times> motor_index) list"

definition calibration_path :: string where
  "calibration_path = ''/home/jasonx/Dropbox/repos/apple_pie/lerobot/.cache/calibration/so100''"

text \<open>
  The loop of \<open>__init__\<close> over \<open>self.follower_arms.items()\<close>, with the variables
  \<open>start_idx\<close> and \<open>self.motor_indices\<close>. Assigning to a key of a dict replaces the
  value of a key that is there and appends a new key otherwise.
\<close>

fun motor_indices_loop ::
  "(string \<times> motor_bus) list \<Rightarrow> nat \<Rightarrow> (string \<times> motor_index) list \<Rightarrow> (string \<times> motor_index) list"
where
  "motor_indices_loop [] start_idx acc = acc"
| "motor_indices_loop ((arm_name, arm) # rest) start_idx acc =
     (let num_motors = length (motor_names arm)
      in motor_indices_loop rest (start_idx + num_motors)
           (AList.update arm_name
              \<lparr>start_entry = start_idx,
               end_entry = start_idx + num_motors,
               motor_names_entry = motor_names arm\<rparr> acc))"

text \<open>
  \<open>SO100Robot.__init__\<close>. Whether the calibration directory exists, the constructor
  \<open>So100RobotConfig\<close> and \<open>make_robot_from_config\<close> belong to the outside and are
  parameters.
\<close>

definition SO100Robot_init ::
  "bool \<Rightarrow> (string \<Rightarrow> config) \<Rightarrow> (config \<Rightarrow> exn + robot) \<Rightarrow> bool \<Rightarrow> exn + SO100Robot"
where
  "SO100Robot_init path_exists So100RobotConfig make_robot_from_config enable_cam =
     (if \<not> path_exists then Inl FileNotFoundError
      else
        let cfg0 = So100RobotConfig calibration_path;
            cfg = (if \<not> enable_cam then cfg0\<lparr>config_cameras := []\<rparr> else cfg0)
        in bind_e (make_robot_from_config cfg) (\<lambda>rb.
             Inr \<lparr>config = cfg,
                  enable_camera = enable_cam,
                  robot = rb,
                  motor_indices = motor_indices_loop (follower_arms rb) 0 []\<rparr>))"

definition set_connected :: "bool \<Rightarrow> unit prog" where
  "set_connected b = (\<lambda>s. (Inr (), s\<lparr>is_connected := b\<rparr>))"

text \<open>\<open>set_so100_robot_preset\<close>: seven writes to the motor bus of one arm.\<close>

definition preset_writes :: "string \<Rightarrow> call list" where
  "preset_writes arm_name =
     [BusWrite arm_name ''Mode'' 0,
      BusWrite arm_name ''P_Coefficient'' 10,
      BusWrite arm_name ''I_Coefficient'' 0,
      BusWrite arm_name ''D_Coefficient'' 32,
      BusWrite arm_name ''Lock'' 0,
      BusWrite arm_name ''Maximum_Acceleration'' 254,
      BusWrite arm_name ''Acceleration'' 254]"

definition set_so100_robot_preset :: "world \<Rightarrow> string \<Rightarrow> unit prog" where
  "set_so100_robot_preset w arm_name = for_each (preset_writes arm_name) (ext_call w)"

definition connect :: "world \<Rightarrow> SO100Robot \<Rightarrow> unit prog" where
  "connect w self =
     (\<lambda>s. if is_connected s then (Inl RobotDeviceAlreadyConnectedError, s)
          else
            bind (ext_call w RobotConnect) (\<lambda>_.
            bind (for_each (follower_arms (robot self)) (\<lambda>(arm_name, arm).
                    bind (set_so100_robot_preset w arm_name) (\<lambda>_.
                    ext_call w (BusRead arm_name ''Present_Position'')))) (\<lambda>_.
            set_connected True)) s)"

text \<open>
  \<open>torch.tensor\<close> of a list of Python floats has dtype \<open>float32\<close>: each element is the
  \<open>float32\<close> nearest to the literal of the source. \<open>float32_rounding x v\<close> says so of a
  literal \<open>x\<close> and a stored value \<open>v\<close> below \<open>2 ^ 24\<close> in magnitude: \<open>v\<close> has a
  mantissa of 24 bits and \<open>x\<close> is within half a unit in its last place.
\<close>

definition float32_rounding :: "real \<Rightarrow> real \<Rightarrow> bool" where
  "float32_rounding x v =
     ((x = 0 \<and> v = 0)
      \<or> (\<exists>m k. 2 ^ 23 \<le> \<bar>m\<bar> \<and> \<bar>m\<bar> < 2 ^ 24 \<and> v = real_of_int m / 2 ^ k
                 \<and> \<bar>x - v\<bar> * 2 * 2 ^ k \<le> 1))"

text \<open>
  The pose of \<open>move_to_initial_pose\<close>, written
  \<open>[0.0000, 183.6914, 162.5098, 60.1953, -3.2520, -1.0989]\<close> in the source.
\<close>

definition initial_pose :: ndarray where
  "initial_pose =
     \<lparr>dtype = Float32, shape = [6],
      data = [0, 183.69140625, 162.509796142578125, 60.195301055908203125,
              -3.2520000934600830078125, -1.09889996051788330078125]\<rparr>"

text \<open>
  The pose of \<open>go_home\<close>, written
  \<open>[0.0000, 183.6914, 162.5098, 100.1953, -3.2520, -1.0989]\<close> in the source.
\<close>

definition home_pose :: ndarray where
  "home_pose =
     \<lparr>dtype = Float32, shape = [6],
      data = [0, 183.69140625, 162.509796142578125, 100.1952972412109375,
              -3.2520000934600830078125, -1.09889996051788330078125]\<rparr>"

definition get_observation :: "world \<Rightarrow> observation prog" where
  "get_observation w = ext_capture_observation w"

definition set_target_state :: "world \<Rightarrow> ndarray \<Rightarrow> unit prog" where
  "set_target_state w target_state = ext_call w (SendAction target_state)"

text \<open>
  \<open>move_to_initial_pose\<close>: the observation is captured twice (once for the state, once to
  print its keys); \<open>target_state\<close>, the clone of the captured state, is never used.
\<close>

definition move_to_initial_pose :: "world \<Rightarrow> SO100Robot \<Rightarrow> unit prog" where
  "move_to_initial_pose w self =
     bind (ext_capture_observation w) (\<lambda>obs.
     bind (lift (getkey obs ''observation.state'')) (\<lambda>current_state.
     bind (ext_capture_observation w) (\<lambda>obs2.
       let target_state = current_state;
           current_state = initial_pose;
           current_state = repeat current_state (length (follower_arms (robot self)))
       in bind (ext_call w (SendAction current_state)) (\<lambda>_.
          ext_call w (Sleep 2)))))"

definition go_home :: "world \<Rightarrow> SO100Robot \<Rightarrow> unit prog" where
  "go_home w self =
     (let home_state = home_pose;
          num_follower_arms = length (follower_arms (robot self));
          home_state = repeat home_state num_follower_arms
      in bind (set_target_state w home_state) (\<lambda>_.
         ext_call w (Sleep 2)))"

definition get_current_state :: "world \<Rightarrow> ndarray prog" where
  "get_current_state w =
     bind (get_observation w) (\<lambda>obs. lift (getkey obs ''observation.state''))"

definition get_current_img :: "world \<Rightarrow> SO100Robot \<Rightarrow> string \<Rightarrow> ndarray option prog" where
  "get_current_img w self camera_name =
     (if camera_name \<in> set (map fst (cameras (robot self)))
      then
        bind (get_observation w) (\<lambda>obs.
        bind (lift (getkey obs (''observation.images.'' @ camera_name))) (\<lambda>img.
        bind (lift (cvtColor_BGR2RGB w img)) (\<lambda>img.
        return (Some img))))
      else return None)"

definition get_all_camera_images :: "world \<Rightarrow> SO100Robot \<Rightarrow> (string \<times> ndarray option) list prog" where
  "get_all_camera_images w self =
     for_acc (map fst (cameras (robot self))) [] (\<lambda>cam_name images.
       bind (get_current_img w self cam_name) (\<lambda>img.
       return (AList.update cam_name img images)))"

definition enable :: "world \<Rightarrow> SO100Robot \<Rightarrow> unit prog" where
  "enable w self =
     (\<lambda>s. if \<not> is_connected s then (Inr (), s)
          else for_each (follower_arms (robot self)) (\<lambda>(arm_name, arm).
                 ext_call w (BusWrite arm_name ''Torque_Enable'' (TorqueMode_ENABLED w))) s)"

definition disable :: "world \<Rightarrow> SO100Robot \<Rightarrow> unit prog" where
  "disable w self =
     (\<lambda>s. if \<not> is_connected s then (Inr (), s)
          else for_each (follower_arms (robot self)) (\<lambda>(arm_name, arm).
                 ext_call w (BusWrite arm_name ''Torque_Enable'' (TorqueMode_DISABLED w))) s)"

definition disconnect :: "world \<Rightarrow> SO100Robot \<Rightarrow> unit prog" where
  "disconnect w self =
     try_except_Exception
       (\<lambda>s. if is_connected s
            then bind (disable w self) (\<lambda>_.
                 bind (ext_call w RobotDisconnect) (\<lambda>_.
                 set_connected False)) s
            else (Inr (), s))
       (\<lambda>e. return ())"

text \<open>
  \<open>with self.activate(): body\<close>. The generator of the context manager runs \<open>connect\<close> and
  \<open>move_to_initial_pose\<close> inside its \<open>try\<close>, hands over to the body at \<open>yield\<close>, where
  an exception of the body is raised again, and runs \<open>disconnect\<close> in its \<open>finally\<close>.
\<close>

definition with_activate :: "world \<Rightarrow> SO100Robot \<Rightarrow> 'a prog \<Rightarrow> 'a prog" where
  "with_activate w self body =
     try_finally
       (bind (connect w self) (\<lambda>_.
        bind (move_to_initial_pose w self) (\<lambda>_.
        body)))
       (disconnect w self)"

section \<open>\<open>CustomGr00tRobotInferenceClient\<close>\<close>

text \<open>\<open>imgs[k][np.newaxis, :, :, :]\<close>: subscripting \<open>None\<close> raises \<open>TypeError\<close>.\<close>

definition video_entry :: "(string \<times> ndarray option) list \<Rightarrow> string \<Rightarrow> exn + obs_entry" where
  "video_entry imgs k =
     bind_e (getkey imgs k) (\<lambda>img.
       case img of
         None \<Rightarrow> Inl TypeError
       | Some a \<Rightarrow> bind_e (newaxis 3 a) (\<lambda>b. Inr (Arr b)))"

text \<open>\<open>state[lo:hi][np.newaxis, :].astype(np.float64)\<close>\<close>

definition state_entry :: "ndarray \<Rightarrow> nat \<Rightarrow> nat \<Rightarrow> exn + obs_entry" where
  "state_entry st lo hi =
     bind_e (getslice st lo hi) (\<lambda>a.
     bind_e (newaxis 1 a) (\<lambda>b.
     Inr (Arr (astype Float64 b))))"

text \<open>The observation dictionary of \<open>get_action\<close>; \<open>state[:5]\<close> is \<open>state[0:5]\<close>.\<close>

definition get_action_obs_dict ::
  "string \<Rightarrow> (string \<times> ndarray option) list \<Rightarrow> ndarray \<Rightarrow> exn + obs_dict"
where
  "get_action_obs_dict language_instruction imgs st =
     dict_display
       [(''video.webcam'', video_entry imgs ''webcam''),
        (''video.main'', video_entry imgs ''main''),
        (''video.cv'', video_entry imgs ''cv''),
        (''state.main_arm'', state_entry st 0 5),
        (''state.main_gripper'', state_entry st 5 6),
        (''state.cv_arm'', state_entry st 6 11),
        (''state.cv_gripper'', state_entry st 11 12),
        (''annotation.human.action.task_description'', Inr (Text [language_instruction]))]"

definition get_action ::
  "world \<Rightarrow> string \<Rightarrow> (string \<times> ndarray option) list \<Rightarrow> ndarray \<Rightarrow> action prog"
where
  "get_action w language_instruction imgs st =
     bind (lift (get_action_obs_dict language_instruction imgs st)) (\<lambda>obs_dict.
     ext_policy_get_action w obs_dict)"

section \<open>\<open>view_imgs\<close>\<close>

definition view_imgs :: "world \<Rightarrow> imgs_arg \<Rightarrow> unit prog" where
  "view_imgs w imgs =
     (let l = imgs_list imgs;
          num_imgs = int (length l)
      in bind (lift (view_imgs_grid num_imgs)) (\<lambda>(rows, cols).
         bind (for_each (zip [0..<length l] l) (\<lambda>(i, img).
                 bind (ext_call w (PltSubplot rows cols (int i + 1))) (\<lambda>_.
                 bind (ext_call w (PltImshow img)) (\<lambda>_.
                 ext_call w (PltAxis ''off''))))) (\<lambda>_.
         bind (ext_call w (PltPause 0.001)) (\<lambda>_.
         ext_call w PltClf))))"

section \<open>The main program\<close>

definition MODALITY_KEYS :: "string list" where
  "MODALITY_KEYS = [''action.main_arm'', ''action.main_gripper'', ''action.cv_arm'', ''action.cv_gripper'']"

text \<open>A list comprehension evaluates its elements in order; the first exception ends it.\<close>

fun comprehension :: "('a \<Rightarrow> exn + 'b) \<Rightarrow> 'a list \<Rightarrow> exn + 'b list" where
  "comprehension f [] = Inr []"
| "comprehension f (x # xs) =
     (case f x of
        Inl e \<Rightarrow> Inl e
      | Inr y \<Rightarrow> (case comprehension f xs of Inl e \<Rightarrow> Inl e | Inr ys \<Rightarrow> Inr (y # ys)))"

text \<open>
  \<open>np.concatenate([np.atleast_1d(action[key][i]) for key in MODALITY_KEYS], axis=0)\<close>
\<close>

definition modality_step :: "action \<Rightarrow> nat \<Rightarrow> string \<Rightarrow> exn + ndarray" where
  "modality_step act i key =
     bind_e (getkey act key) (\<lambda>a.
     bind_e (getitem a i) (\<lambda>r.
     Inr (atleast_1d r)))"

definition concat_action :: "action \<Rightarrow> nat \<Rightarrow> exn + ndarray" where
  "concat_action act i = bind_e (comprehension (modality_step act i) MODALITY_KEYS) concatenate"

text \<open>\<open>assert concat_action.shape == (12,)\<close>\<close>

definition assert_shape_12 :: "ndarray \<Rightarrow> exn + unit" where
  "assert_shape_12 a = (if shape a = [12] then Inr () else Inl AssertionError)"

text \<open>\<open>len(a)\<close> of an array: the size of its first axis; an array without axes has none.\<close>

definition len :: "ndarray \<Rightarrow> exn + nat" where
  "len a = (case shape a of [] \<Rightarrow> Inl TypeError | n # sh \<Rightarrow> Inr n)"

text \<open>The body of the inner loop \<open>for i in range(ACTION_HORIZON)\<close>.\<close>

definition inner_body :: "world \<Rightarrow> SO100Robot \<Rightarrow> action \<Rightarrow> nat \<Rightarrow> unit prog" where
  "inner_body w self act i =
     bind (lift (concat_action act i)) (\<lambda>ca.
     bind (lift (assert_shape_12 ca)) (\<lambda>_.
     bind (set_target_state w ca) (\<lambda>_.
     bind (ext_call w (Sleep 0.01)) (\<lambda>_.
     bind (get_all_camera_images w self) (\<lambda>imgs.
     bind (view_imgs w (ImgDict imgs)) (\<lambda>_.
     bind (get_current_state w) (\<lambda>st.
     bind (ext_call w (RrSetTimeSeconds ''time'')) (\<lambda>_.
     bind (lift (len ca)) (\<lambda>n.
     for_each [0..<n] (\<lambda>j.
       bind (lift (getitem st j)) (\<lambda>sj.
       bind (ext_call w (RrLog ''gr00t_so100/joint_positions'' j sj)) (\<lambda>_.
       bind (lift (getitem ca j)) (\<lambda>cj.
       ext_call w (RrLog ''gr00t_so100/action'' j cj))))))))))))))"

text \<open>
  The body of the main loop \<open>for i in tqdm(range(ACTIONS_TO_EXECUTE))\<close>; \<open>range\<close> of a
  number below 1 is empty.
\<close>

definition main_body :: "world \<Rightarrow> SO100Robot \<Rightarrow> string \<Rightarrow> int \<Rightarrow> unit prog" where
  "main_body w self language_instruction ACTION_HORIZON =
     bind (get_all_camera_images w self) (\<lambda>imgs.
     bind (view_imgs w (ImgDict imgs)) (\<lambda>_.
     bind (get_current_state w) (\<lambda>st.
     bind (get_action w language_instruction imgs st) (\<lambda>act.
     for_each [0..<nat ACTION_HORIZON] (inner_body w self act)))))"

definition main_loop :: "world \<Rightarrow> SO100Robot \<Rightarrow> string \<Rightarrow> int \<Rightarrow> int \<Rightarrow> unit prog" where
  "main_loop w self language_instruction ACTIONS_TO_EXECUTE ACTION_HORIZON =
     for_each [0..<nat ACTIONS_TO_EXECUTE] (\<lambda>i.
       main_body w self language_instruction ACTION_HORIZON)"

definition main :: "world \<Rightarrow> SO100Robot \<Rightarrow> int \<Rightarrow> int \<Rightarrow> unit prog" where
  "main w self ACTIONS_TO_EXECUTE ACTION_HORIZON =
     with_activate w self
       (main_loop w self ''Grasp items from white bowl and place in black tray''
          ACTIONS_TO_EXECUTE ACTION_HORIZON)"

section \<open>Notions used to state the properties\<close>

text \<open>
  The \<open>motor_indices\<close> that a dict of follower arms should give: the arms in order, each
  starting where the one before ends.
\<close>

fun layout :: "(string \<times> motor_bus) list \<Rightarrow> nat \<Rightarrow> (string \<times> motor_index) list" where
  "layout [] start_idx = []"
| "layout ((arm_name, arm) # rest) start_idx =
     (arm_name, \<lparr>start_entry = start_idx,
                 end_entry = start_idx + length (motor_names arm),
                 motor_names_entry = motor_names arm\<rparr>)
     # layout rest (start_idx + length (motor_names arm))"

text \<open>The calls that \<open>connect\<close> makes for one follower arm: the preset, then the read.\<close>

definition arm_setup :: "(string \<times> motor_bus) \<Rightarrow> call list" where
  "arm_setup = (\<lambda>(arm_name, arm). preset_writes arm_name @ [BusRead arm_name ''Present_Position''])"

text \<open>The call that \<open>disable\<close> makes for one follower arm.\<close>

definition torque_off :: "world \<Rightarrow> (string \<times> motor_bus) \<Rightarrow> call" where
  "torque_off w = (\<lambda>(arm_name, arm). BusWrite arm_name ''Torque_Enable'' (TorqueMode_DISABLED w))"

text \<open>
  Making a list of calls in order until one raises: the exception, if any, and the calls made,
  the raising one included.
\<close>

fun run_calls :: "world \<Rightarrow> call list \<Rightarrow> call list \<Rightarrow> exn option \<times> call list" where
  "run_calls w [] h = (None, h)"
| "run_calls w (c # cs) h =
     (case call_raises w (h @ [c]) of
        Some e \<Rightarrow> (Some e, h @ [c])
      | None \<Rightarrow> run_calls w cs (h @ [c]))"

text \<open>The calls made between one state of the program and a later one.\<close>

definition new_calls :: "state \<Rightarrow> state \<Rightarrow> call list" where
  "new_calls s s' = drop (length (calls s)) (calls s')"

text \<open>The calls that \<open>view_imgs\<close> makes for the image at position \<open>i\<close>.\<close>

definition subplot_calls :: "int \<Rightarrow> int \<Rightarrow> (nat \<times> ndarray option) \<Rightarrow> call list" where
  "subplot_calls rows cols = (\<lambda>(i, img). [PltSubplot rows cols (int i + 1), PltImshow img, PltAxis ''off''])"

text \<open>The calls of \<open>view_imgs\<close> for a dict of images, when it returns.\<close>

definition view_calls :: "(string \<times> ndarray option) list \<Rightarrow> call list" where
  "view_calls imgs =
     (case view_imgs_grid (int (length imgs)) of
        Inl e \<Rightarrow> []
      | Inr (rows, cols) \<Rightarrow>
          concat (map (subplot_calls rows cols) (zip [0..<length imgs] (map snd imgs)))
          @ [PltPause 0.001, PltClf])"

text \<open>The two calls that log joint position \<open>j\<close> of the state and element \<open>j\<close> of the action.\<close>

definition log_calls :: "ndarray \<Rightarrow> ndarray \<Rightarrow> nat \<Rightarrow> call list" where
  "log_calls st ca j =
     [RrLog ''gr00t_so100/joint_positions'' j (projr (getitem st j)),
      RrLog ''gr00t_so100/action'' j (projr (getitem ca j))]"


text \<open>
  The steps of the main loop: every call is one of reading the sensors, asking the policy
  for an action, commanding the actuators, displaying, logging, pacing, or setting up.
\<close>

datatype step = ReadSensors | RequestAction | SendToActuators | Display | Log | Pace | Setup

fun step_of :: "call \<Rightarrow> step" where
  "step_of CaptureObservation = ReadSensors"
| "step_of (PolicyGetAction obs) = RequestAction"
| "step_of (SendAction a) = SendToActuators"
| "step_of (PltSubplot r c i) = Display"
| "step_of (PltImshow img) = Display"
| "step_of (PltAxis v) = Display"
| "step_of (PltPause d) = Display"
| "step_of PltClf = Display"
| "step_of (RrSetTimeSeconds t) = Log"
| "step_of (RrLog p i v) = Log"
| "step_of (Sleep d) = Pace"
| "step_of RobotConnect = Setup"
| "step_of RobotDisconnect = Setup"
| "step_of (BusWrite arm reg v) = Setup"
| "step_of (BusRead arm reg) = Setup"



text \<open>
  \<open>emits m P\<close>: from every state, the program \<open>m\<close> only adds calls, and \<open>P\<close> holds
  of its outcome and the calls it added.
\<close>

definition emits :: "'a prog \<Rightarrow> ((exn + 'a) \<Rightarrow> call list \<Rightarrow> bool) \<Rightarrow> bool" where
  "emits m P = (\<forall>s. \<exists>es. calls (snd (m s)) = calls s @ es \<and> P (fst (m s)) es)"

fun is_send :: "call \<Rightarrow> bool" where
  "is_send (SendAction a) = True"
| "is_send c = False"

fun is_sleep :: "call \<Rightarrow> bool" where
  "is_sleep (Sleep d) = True"
| "is_sleep c = False"

definition quiet :: "call list \<Rightarrow> bool" where
  "quiet es = list_all (\<lambda>c. \<not> is_send c \<and> \<not> is_sleep c) es"

fun pace :: "bool \<Rightarrow> call list \<Rightarrow> bool option" where
  "pace b [] = Some b"
| "pace b (c # cs) =
     (if is_send c then (if b then None else pace True cs)
      else if c = Sleep 0.01 then pace False cs
      else pace b cs)"

text \<open>What one pass through the body of the inner loop may add, whatever happens.\<close>

definition inner_pattern :: "(exn + unit) \<Rightarrow> call list \<Rightarrow> bool" where
  "inner_pattern r es =
     ((es = [] \<and> (\<exists>e. r = Inl e))
      \<or> (\<exists>a. es = [SendAction a] \<and> (\<exists>e. r = Inl e))
      \<or> (\<exists>a rest. es = SendAction a # Sleep 0.01 # rest \<and> quiet rest))"

definition fixed_sleeps :: "call list \<Rightarrow> bool" where
  "fixed_sleeps es = list_all (\<lambda>c. is_sleep c \<longrightarrow> c = Sleep 0.01) es"



section \<open>A concrete robot and its inputs\<close>

text \<open>Two follower arms of six motors each and the three cameras the client asks for.\<close>

definition so100_motors :: "string list" where
  "so100_motors =
     [''shoulder_pan'', ''shoulder_lift'', ''elbow_flex'', ''wrist_flex'', ''wrist_roll'', ''gripper'']"

definition ex_robot :: robot where
  "ex_robot =
     \<lparr>follower_arms = [(''main'', \<lparr>motor_names = so100_motors\<rparr>), (''cv'', \<lparr>motor_names = so100_motors\<rparr>)],
      leader_arms = [],
      cameras = [(''webcam'', OpenCVCamera (OpenCVCameraConfig 0)),
                 (''main'', OpenCVCamera (OpenCVCameraConfig 1)),
                 (''cv'', OpenCVCamera (OpenCVCameraConfig 2))]\<rparr>"

definition ex_So100RobotConfig :: "string \<Rightarrow> config" where
  "ex_So100RobotConfig dir =
     \<lparr>calibration_dir = dir,
      config_cameras = [(''webcam'', OpenCVCameraConfig 0),
                        (''main'', OpenCVCameraConfig 1),
                        (''cv'', OpenCVCameraConfig 2)]\<rparr>"

text \<open>A robot factory that makes one camera device for each configured camera.\<close>

definition ex_make_robot :: "config \<Rightarrow> exn + robot" where
  "ex_make_robot cfg =
     Inr \<lparr>follower_arms = [(''main'', \<lparr>motor_names = so100_motors\<rparr>), (''cv'', \<lparr>motor_names = so100_motors\<rparr>)],
          leader_arms = [],
          cameras = map (\<lambda>(name, c). (name, OpenCVCamera c)) (config_cameras cfg)\<rparr>"

definition ex_self :: SO100Robot where
  "ex_self =
     \<lparr>config = ex_So100RobotConfig calibration_path,
      enable_camera = True,
      robot = ex_robot,
      motor_indices =
        [(''main'', \<lparr>start_entry = 0, end_entry = 6, motor_names_entry = so100_motors\<rparr>),
         (''cv'', \<lparr>start_entry = 6, end_entry = 12, motor_names_entry = so100_motors\<rparr>)]\<rparr>"

definition ex_frame :: ndarray where
  "ex_frame = \<lparr>dtype = UInt8, shape = [1, 1, 3], data = [10, 20, 30]\<rparr>"

definition ex_imgs :: "(string \<times> ndarray option) list" where
  "ex_imgs = [(''webcam'', Some ex_frame), (''main'', Some ex_frame), (''cv'', Some ex_frame)]"

definition ex_state :: ndarray where
  "ex_state = \<lparr>dtype = Float32, shape = [12], data = [1, 2, 3, 4, 5, 6, 7, 8, 9, 10, 11, 12]\<rparr>"

text \<open>An action chunk of two steps.\<close>

definition ex_action :: action where
  "ex_action =
     [(''action.main_arm'', \<lparr>dtype = Float64, shape = [2, 5], data = [1, 2, 3, 4, 5, 21, 22, 23, 24, 25]\<rparr>),
      (''action.main_gripper'', \<lparr>dtype = Float64, shape = [2], data = [6, 26]\<rparr>),
      (''action.cv_arm'', \<lparr>dtype = Float64, shape = [2, 5], data = [7, 8, 9, 10, 11, 27, 28, 29, 30, 31]\<rparr>),
      (''action.cv_gripper'', \<lparr>dtype = Float64, shape = [2, 1], data = [12, 32]\<rparr>)]"

subsection \<open>Concrete worlds\<close>

text \<open>A world in which no call raises, and one in which closing the robot is interrupted.\<close>

definition ex_frame_bgr :: ndarray where
  "ex_frame_bgr = \<lparr>dtype = UInt8, shape = [1, 1, 3], data = [30, 20, 10]\<rparr>"

definition ex_observation :: observation where
  "ex_observation =
     [(''observation.state'', ex_state),
      (''observation.images.webcam'', ex_frame_bgr),
      (''observation.images.main'', ex_frame_bgr),
      (''observation.images.cv'', ex_frame_bgr)]"

definition ex_world :: world where
  "ex_world =
     \<lparr>capture_observation_result = (\<lambda>h. Inr ex_observation),
      get_action_result = (\<lambda>h. Inr ex_action),
      call_raises = (\<lambda>h. None),
      cvtColor_BGR2RGB = (\<lambda>img. Inr (img\<lparr>data := rev (data img)\<rparr>)),
      TorqueMode_ENABLED = 1,
      TorqueMode_DISABLED = 0\<rparr>"

definition s0 :: state where
  "s0 = \<lparr>is_connected = True, calls = []\<rparr>"

definition interrupting_world :: world where
  "interrupting_world =
     \<lparr>capture_observation_result = (\<lambda>h. Inl (LibraryError ''no observation'')),
      get_action_result = (\<lambda>h. Inl (LibraryError ''no server'')),
      call_raises = (\<lambda>h. if h \<noteq> [] \<and> last h = RobotDisconnect then Some KeyboardInterrupt else None),
      cvtColor_BGR2RGB = Inr,
      TorqueMode_ENABLED = 1,
      TorqueMode_DISABLED = 0\<rparr>"

text \<open>A world in which closing the robot fails with an exception derived from \<open>Exception\<close>.\<close>

definition failing_world :: world where
  "failing_world =
     \<lparr>capture_observation_result = (\<lambda>h. Inl (LibraryError ''no observation'')),
      get_action_result = (\<lambda>h. Inl (LibraryError ''no server'')),
      call_raises = (\<lambda>h. if h \<noteq> [] \<and> last h = RobotDisconnect
                          then Some (LibraryError ''port is busy'') else None),
      cvtColor_BGR2RGB = Inr,
      TorqueMode_ENABLED = 1,
      TorqueMode_DISABLED = 0\<rparr>"

text \<open>The calls that the program makes in the world where no call raises.\<close>

definition ex_obs_dict :: obs_dict where
  "ex_obs_dict =
     [(''video.webcam'', Arr \<lparr>dtype = UInt8, shape = [1, 1, 1, 3], data = [10, 20, 30]\<rparr>),
      (''video.main'', Arr \<lparr>dtype = UInt8, shape = [1, 1, 1, 3], data = [10, 20, 30]\<rparr>),
      (''video.cv'', Arr \<lparr>dtype = UInt8, shape = [1, 1, 1, 3], data = [10, 20, 30]\<rparr>),
      (''state.main_arm'', Arr \<lparr>dtype = Float64, shape = [1, 5], data = [1, 2, 3, 4, 5]\<rparr>),
      (''state.main_gripper'', Arr \<lparr>dtype = Float64, shape = [1, 1], data = [6]\<rparr>),
      (''state.cv_arm'', Arr \<lparr>dtype = Float64, shape = [1, 5], data = [7, 8, 9, 10, 11]\<rparr>),
      (''state.cv_gripper'', Arr \<lparr>dtype = Float64, shape = [1, 1], data = [12]\<rparr>),
      (''annotation.human.action.task_description'', Text [''go''])]"

definition ex_concat_0 :: ndarray where
  "ex_concat_0 = \<lparr>dtype = Float64, shape = [12], data = [1, 2, 3, 4, 5, 6, 7, 8, 9, 10, 11, 12]\<rparr>"

definition ex_concat_1 :: ndarray where
  "ex_concat_1 =
     \<lparr>dtype = Float64, shape = [12], data = [21, 22, 23, 24, 25, 26, 27, 28, 29, 30, 31, 32]\<rparr>"

definition ex_display_calls :: "call list" where
  "ex_display_calls =
     [PltSubplot 1 3 1, PltImshow (Some ex_frame), PltAxis ''off'',
      PltSubplot 1 3 2, PltImshow (Some ex_frame), PltAxis ''off'',
      PltSubplot 1 3 3, PltImshow (Some ex_frame), PltAxis ''off'',
      PltPause 0.001, PltClf]"

definition ex_rest_calls :: "ndarray \<Rightarrow> call list" where
  "ex_rest_calls ca =
     [CaptureObservation, CaptureObservation, CaptureObservation] @ ex_display_calls
     @ [CaptureObservation, RrSetTimeSeconds ''time'']
     @ concat (map (log_calls ex_state ca) [0..<12])"

definition ex_inner_calls :: "ndarray \<Rightarrow> call list" where
  "ex_inner_calls ca = SendAction ca # Sleep 0.01 # ex_rest_calls ca"


definition s_off :: state where
  "s_off = \<lparr>is_connected = False, calls = []\<rparr>"

definition ex_connect_calls :: "call list" where
  "ex_connect_calls =
     RobotConnect
     # arm_setup (''main'', \<lparr>motor_names = so100_motors\<rparr>)
     @ arm_setup (''cv'', \<lparr>motor_names = so100_motors\<rparr>)"

definition ex_initial_calls :: "call list" where
  "ex_initial_calls =
     [CaptureObservation, CaptureObservation, SendAction (repeat initial_pose 2), Sleep 2]"

definition ex_disconnect_calls :: "call list" where
  "ex_disconnect_calls =
     [BusWrite ''main'' ''Torque_Enable'' 0, BusWrite ''cv'' ''Torque_Enable'' 0, RobotDisconnect]"

text \<open>The robot object made with \<open>enable_camera=False\<close>.\<close>

definition ex_self_nocam :: SO100Robot where
  "ex_self_nocam =
     \<lparr>config = (ex_So100RobotConfig calibration_path)\<lparr>config_cameras := []\<rparr>,
      enable_camera = False,
      robot = ex_robot\<lparr>cameras := []\<rparr>,
      motor_indices =
        [(''main'', \<lparr>start_entry = 0, end_entry = 6, motor_names_entry = so100_motors\<rparr>),
         (''cv'', \<lparr>start_entry = 6, end_entry = 12, motor_names_entry = so100_motors\<rparr>)]\<rparr>"

section \<open>Running programs\<close>

lemma bind_InrE:
  assumes "bind m f s = (Inr y, s'')"
  obtains x s' where "m s = (Inr x, s')" and "f x s' = (Inr y, s'')"
  using assms by (auto simp: bind_def split: prod.splits sum.splits)

lemma bind_Inr: "m s = (Inr x, s') \<Longrightarrow> bind m f s = f x s'"
  by (simp add: bind_def)

lemma bind_Inl: "m s = (Inl e, s') \<Longrightarrow> bind m f s = (Inl e, s')"
  by (simp add: bind_def)

lemma lift_Inr_iff: "lift r s = (Inr x, s') \<longleftrightarrow> r = Inr x \<and> s' = s"
  by (auto simp: lift_def)

lemma return_iff: "return x s = (r, s') \<longleftrightarrow> r = Inr x \<and> s' = s"
  by (auto simp: return_def)

lemma ext_call_Inr_iff:
  "ext_call w c s = (Inr u, s') \<longleftrightarrow>
   call_raises w (calls s @ [c]) = None \<and> s' = s\<lparr>calls := calls s @ [c]\<rparr>"
  by (auto simp: ext_call_def Let_def split: option.splits)

lemma ext_capture_Inr_iff:
  "ext_capture_observation w s = (Inr obs, s') \<longleftrightarrow>
   capture_observation_result w (calls s @ [CaptureObservation]) = Inr obs
   \<and> s' = s\<lparr>calls := calls s @ [CaptureObservation]\<rparr>"
  by (auto simp: ext_capture_observation_def Let_def)



text \<open>In a world in which no call raises, every call returns.\<close>

lemma ext_call_quiet:
  "\<forall>h. call_raises w h = None \<Longrightarrow> ext_call w c s = (Inr (), s\<lparr>calls := calls s @ [c]\<rparr>)"
  by (simp add: ext_call_def Let_def)

lemma for_each_ext_call_quiet:
  "\<forall>h. call_raises w h = None \<Longrightarrow>
   for_each cs (ext_call w) s = (Inr (), s\<lparr>calls := calls s @ cs\<rparr>)"
proof (induction cs arbitrary: s)
  case Nil
  then show ?case by (simp add: return_def)
next
  case (Cons c cs)
  show ?case
    using Cons.IH [OF Cons.prems] ext_call_quiet [OF Cons.prems, of c s]
    by (simp add: bind_def)
qed


lemma arm_body_quiet:
  assumes "\<forall>h. call_raises w h = None"
  shows "bind (set_so100_robot_preset w n) (\<lambda>_. ext_call w (BusRead n ''Present_Position'')) s
    = (Inr (), s\<lparr>calls := calls s @ preset_writes n @ [BusRead n ''Present_Position'']\<rparr>)"
  using for_each_ext_call_quiet [OF assms] ext_call_quiet [OF assms]
  by (simp add: set_so100_robot_preset_def bind_def)


lemma arms_loop_quiet:
  assumes "\<forall>h. call_raises w h = None"
  shows "for_each arms (\<lambda>(arm_name, arm).
      bind (set_so100_robot_preset w arm_name) (\<lambda>_.
      ext_call w (BusRead arm_name ''Present_Position''))) s
    = (Inr (), s\<lparr>calls := calls s @ concat (map arm_setup arms)\<rparr>)"
proof (induction arms arbitrary: s)
  case Nil
  then show ?case by (simp add: return_def)
next
  case (Cons a arms)
  obtain n b where a: "a = (n, b)" by (cases a)
  show ?case
    using Cons.IH arm_body_quiet [OF assms, of n s]
    by (simp add: a arm_setup_def bind_def)
qed

lemma bind_apply:
  "bind m f s = (case m s of (Inl e, s') \<Rightarrow> (Inl e, s') | (Inr x, s') \<Rightarrow> f x s')"
  by (simp add: bind_def)

lemma ext_call_apply:
  "ext_call w c s
     = (case call_raises w (calls s @ [c]) of Some e \<Rightarrow> Inl e | None \<Rightarrow> Inr (),
        s\<lparr>calls := calls s @ [c]\<rparr>)"
  by (simp add: ext_call_def Let_def)

lemma lift_apply: "lift r s = (r, s)"
  by (simp add: lift_def)

section \<open>Properties of \<open>view_imgs\<close>\<close>



section \<open>Properties of the inference client\<close>

lemma dict_display_Inr_Cons:
  "dict_display ((k, r) # rest) = Inr d \<longleftrightarrow>
   (\<exists>v d'. r = Inr v \<and> dict_display rest = Inr d' \<and> d = (k, v) # d')"
  by (auto split: sum.splits)

lemma state_entry_12:
  assumes "shape st = [12]"
  shows "state_entry st lo hi =
    Inr (Arr \<lparr>dtype = Float64, shape = [1, min hi 12 - min lo 12],
              data = take (min hi 12 - min lo 12) (drop (min lo 12) (data st))\<rparr>)"
  using assms
  by (simp add: state_entry_def getslice_def newaxis_def astype_def bind_e_def Let_def)

lemma list12:
  assumes "length xs = 12"
  shows "\<exists>a0 a1 a2 a3 a4 a5 a6 a7 a8 a9 a10 a11.
           xs = [a0, a1, a2, a3, a4, a5, a6, a7, a8, a9, a10, a11]"
proof -
  have "length xs = Suc (Suc (Suc (Suc (Suc (Suc (Suc (Suc (Suc (Suc (Suc (Suc 0)))))))))))"
    using assms by simp
  then show ?thesis by (auto simp: length_Suc_conv)
qed

lemma slices12:
  assumes "length xs = 12"
  shows "take 5 xs = [xs ! 0, xs ! 1, xs ! 2, xs ! 3, xs ! 4]
       \<and> take (Suc 0) (drop 5 xs) = [xs ! 5]
       \<and> take 5 (drop 6 xs) = [xs ! 6, xs ! 7, xs ! 8, xs ! 9, xs ! 10]
       \<and> take (Suc 0) (drop 11 xs) = [xs ! 11]"
proof -
  obtain a0 a1 a2 a3 a4 a5 a6 a7 a8 a9 a10 a11
    where xs: "xs = [a0, a1, a2, a3, a4, a5, a6, a7, a8, a9, a10, a11]"
    using list12 [OF assms] by blast
  show ?thesis unfolding xs by simp
qed

lemma video_entry_Inr:
  "getkey imgs k = Inr (Some a) \<Longrightarrow> 3 \<le> length (shape a)
   \<Longrightarrow> video_entry imgs k = Inr (Arr (a\<lparr>shape := 1 # shape a\<rparr>))"
  by (simp add: video_entry_def bind_e_def newaxis_def)

lemma obs_dict_12:
  assumes sh: "shape st = [12]"
  shows "get_action_obs_dict li imgs st =
     dict_display
       [(''video.webcam'', video_entry imgs ''webcam''),
        (''video.main'', video_entry imgs ''main''),
        (''video.cv'', video_entry imgs ''cv''),
        (''state.main_arm'', Inr (Arr \<lparr>dtype = Float64, shape = [1, 5], data = take 5 (data st)\<rparr>)),
        (''state.main_gripper'',
           Inr (Arr \<lparr>dtype = Float64, shape = [1, 1], data = take 1 (drop 5 (data st))\<rparr>)),
        (''state.cv_arm'',
           Inr (Arr \<lparr>dtype = Float64, shape = [1, 5], data = take 5 (drop 6 (data st))\<rparr>)),
        (''state.cv_gripper'',
           Inr (Arr \<lparr>dtype = Float64, shape = [1, 1], data = take 1 (drop 11 (data st))\<rparr>)),
        (''annotation.human.action.task_description'', Inr (Text [li]))]"
  unfolding get_action_obs_dict_def state_entry_12 [OF sh] by simp

lemma get_action_call:
  "get_action_obs_dict li imgs st = Inr d \<Longrightarrow>
   calls (snd (get_action w li imgs st s)) = calls s @ [PolicyGetAction d]"
  by (simp add: get_action_def bind_def lift_def ext_policy_get_action_def Let_def)

text \<open>
  C2. For every state vector of 12 elements, \<open>get_action\<close> builds its observation
  dictionary whenever the three camera images are there with their three axes, and only an
  image can make it raise. The dictionary has \<open>state.main_arm\<close> = elements 0 to 4,
  \<open>state.main_gripper\<close> = element 5, \<open>state.cv_arm\<close> = elements 6 to 10 and
  \<open>state.cv_gripper\<close> = element 11, each of type \<open>float64\<close> and with a leading axis of
  size 1, and it is what the policy is asked with.
\<close>

theorem get_action_state_entries:
  assumes sh: "shape st = [12]" and len: "length (data st) = 12"
  shows "(\<forall>d. get_action_obs_dict language_instruction imgs st = Inr d \<longrightarrow>
           map_of d ''state.main_arm''
             = Some (Arr \<lparr>dtype = Float64, shape = [1, 5],
                          data = [data st ! 0, data st ! 1, data st ! 2, data st ! 3, data st ! 4]\<rparr>)
         \<and> map_of d ''state.main_gripper''
             = Some (Arr \<lparr>dtype = Float64, shape = [1, 1], data = [data st ! 5]\<rparr>)
         \<and> map_of d ''state.cv_arm''
             = Some (Arr \<lparr>dtype = Float64, shape = [1, 5],
                          data = [data st ! 6, data st ! 7, data st ! 8, data st ! 9, data st ! 10]\<rparr>)
         \<and> map_of d ''state.cv_gripper''
             = Some (Arr \<lparr>dtype = Float64, shape = [1, 1], data = [data st ! 11]\<rparr>)
         \<and> calls (snd (get_action w language_instruction imgs st s)) = calls s @ [PolicyGetAction d])
       \<and> (\<forall>a1 a2 a3.
             getkey imgs ''webcam'' = Inr (Some a1) \<and> 3 \<le> length (shape a1)
             \<and> getkey imgs ''main'' = Inr (Some a2) \<and> 3 \<le> length (shape a2)
             \<and> getkey imgs ''cv'' = Inr (Some a3) \<and> 3 \<le> length (shape a3)
             \<longrightarrow> get_action_obs_dict language_instruction imgs st =
                   Inr [(''video.webcam'', Arr (a1\<lparr>shape := 1 # shape a1\<rparr>)),
                        (''video.main'', Arr (a2\<lparr>shape := 1 # shape a2\<rparr>)),
                        (''video.cv'', Arr (a3\<lparr>shape := 1 # shape a3\<rparr>)),
                        (''state.main_arm'',
                           Arr \<lparr>dtype = Float64, shape = [1, 5],
                                data = [data st ! 0, data st ! 1, data st ! 2, data st ! 3, data st ! 4]\<rparr>),
                        (''state.main_gripper'',
                           Arr \<lparr>dtype = Float64, shape = [1, 1], data = [data st ! 5]\<rparr>),
                        (''state.cv_arm'',
                           Arr \<lparr>dtype = Float64, shape = [1, 5],
                                data = [data st ! 6, data st ! 7, data st ! 8, data st ! 9, data st ! 10]\<rparr>),
                        (''state.cv_gripper'',
                           Arr \<lparr>dtype = Float64, shape = [1, 1], data = [data st ! 11]\<rparr>),
                        (''annotation.human.action.task_description'', Text [language_instruction])])
       \<and> (\<forall>e. get_action_obs_dict language_instruction imgs st = Inl e \<longrightarrow>
             video_entry imgs ''webcam'' = Inl e \<or> video_entry imgs ''main'' = Inl e
             \<or> video_entry imgs ''cv'' = Inl e)"
proof (intro conjI allI impI)
  fix d
  assume ok: "get_action_obs_dict language_instruction imgs st = Inr d"
  note se = state_entry_12 [OF sh]
  from ok obtain v1 v2 v3 where
    d: "d = [(''video.webcam'', v1), (''video.main'', v2), (''video.cv'', v3),
             (''state.main_arm'', Arr \<lparr>dtype = Float64, shape = [1, 5], data = take 5 (data st)\<rparr>),
             (''state.main_gripper'', Arr \<lparr>dtype = Float64, shape = [1, 1], data = take 1 (drop 5 (data st))\<rparr>),
             (''state.cv_arm'', Arr \<lparr>dtype = Float64, shape = [1, 5], data = take 5 (drop 6 (data st))\<rparr>),
             (''state.cv_gripper'', Arr \<lparr>dtype = Float64, shape = [1, 1], data = take 1 (drop 11 (data st))\<rparr>),
             (''annotation.human.action.task_description'', Text [language_instruction])]"
    unfolding get_action_obs_dict_def dict_display_Inr_Cons se
    by auto
  show "map_of d ''state.main_arm''
             = Some (Arr \<lparr>dtype = Float64, shape = [1, 5],
                          data = [data st ! 0, data st ! 1, data st ! 2, data st ! 3, data st ! 4]\<rparr>)"
    unfolding d by (simp add: slices12 [OF len])
  show "map_of d ''state.main_gripper''
             = Some (Arr \<lparr>dtype = Float64, shape = [1, 1], data = [data st ! 5]\<rparr>)"
    unfolding d by (simp add: slices12 [OF len])
  show "map_of d ''state.cv_arm''
             = Some (Arr \<lparr>dtype = Float64, shape = [1, 5],
                          data = [data st ! 6, data st ! 7, data st ! 8, data st ! 9, data st ! 10]\<rparr>)"
    unfolding d by (simp add: slices12 [OF len])
  show "map_of d ''state.cv_gripper''
             = Some (Arr \<lparr>dtype = Float64, shape = [1, 1], data = [data st ! 11]\<rparr>)"
    unfolding d by (simp add: slices12 [OF len])
  show "calls (snd (get_action w language_instruction imgs st s)) = calls s @ [PolicyGetAction d]"
    by (rule get_action_call [OF ok])
next
  fix a1 a2 a3
  assume "getkey imgs ''webcam'' = Inr (Some a1) \<and> 3 \<le> length (shape a1)
             \<and> getkey imgs ''main'' = Inr (Some a2) \<and> 3 \<le> length (shape a2)
             \<and> getkey imgs ''cv'' = Inr (Some a3) \<and> 3 \<le> length (shape a3)"
  then have v: "video_entry imgs ''webcam'' = Inr (Arr (a1\<lparr>shape := 1 # shape a1\<rparr>))"
    "video_entry imgs ''main'' = Inr (Arr (a2\<lparr>shape := 1 # shape a2\<rparr>))"
    "video_entry imgs ''cv'' = Inr (Arr (a3\<lparr>shape := 1 # shape a3\<rparr>))"
    by (simp_all add: video_entry_Inr)
  show "get_action_obs_dict language_instruction imgs st =
                   Inr [(''video.webcam'', Arr (a1\<lparr>shape := 1 # shape a1\<rparr>)),
                        (''video.main'', Arr (a2\<lparr>shape := 1 # shape a2\<rparr>)),
                        (''video.cv'', Arr (a3\<lparr>shape := 1 # shape a3\<rparr>)),
                        (''state.main_arm'',
                           Arr \<lparr>dtype = Float64, shape = [1, 5],
                                data = [data st ! 0, data st ! 1, data st ! 2, data st ! 3, data st ! 4]\<rparr>),
                        (''state.main_gripper'',
                           Arr \<lparr>dtype = Float64, shape = [1, 1], data = [data st ! 5]\<rparr>),
                        (''state.cv_arm'',
                           Arr \<lparr>dtype = Float64, shape = [1, 5],
                                data = [data st ! 6, data st ! 7, data st ! 8, data st ! 9, data st ! 10]\<rparr>),
                        (''state.cv_gripper'',
                           Arr \<lparr>dtype = Float64, shape = [1, 1], data = [data st ! 11]\<rparr>),
                        (''annotation.human.action.task_description'', Text [language_instruction])]"
    unfolding obs_dict_12 [OF sh] v by (simp add: slices12 [OF len])
next
  fix e
  assume "get_action_obs_dict language_instruction imgs st = Inl e"
  then show "video_entry imgs ''webcam'' = Inl e \<or> video_entry imgs ''main'' = Inl e
             \<or> video_entry imgs ''cv'' = Inl e"
    unfolding obs_dict_12 [OF sh] by (auto split: sum.splits)
qed

theorem get_action_state_entries_witness:
  "shape ex_state = [12] \<and> length (data ex_state) = 12
   \<and> getkey ex_imgs ''webcam'' = Inr (Some ex_frame) \<and> 3 \<le> length (shape ex_frame)
   \<and> getkey ex_imgs ''main'' = Inr (Some ex_frame)
   \<and> getkey ex_imgs ''cv'' = Inr (Some ex_frame)
   \<and> get_action_obs_dict ''go'' ex_imgs ex_state = Inr ex_obs_dict
   \<and> map_of ex_obs_dict ''state.cv_arm''
       = Some (Arr \<lparr>dtype = Float64, shape = [1, 5], data = [7, 8, 9, 10, 11]\<rparr>)
   \<and> calls (snd (get_action ex_world ''go'' ex_imgs ex_state s0)) = calls s0 @ [PolicyGetAction ex_obs_dict]"
proof -
  have sh: "shape ex_state = [12]" and len: "length (data ex_state) = 12"
    by (simp_all add: ex_state_def)
  have k: "getkey ex_imgs ''webcam'' = Inr (Some ex_frame)"
    "getkey ex_imgs ''main'' = Inr (Some ex_frame)"
    "getkey ex_imgs ''cv'' = Inr (Some ex_frame)"
    by (simp_all add: getkey_def ex_imgs_def)
  have f: "3 \<le> length (shape ex_frame)" by (simp add: ex_frame_def)
  note t = get_action_state_entries [OF sh len, of "''go''" ex_imgs ex_world s0]
  from t k f have "get_action_obs_dict ''go'' ex_imgs ex_state =
                   Inr [(''video.webcam'', Arr (ex_frame\<lparr>shape := 1 # shape ex_frame\<rparr>)),
                        (''video.main'', Arr (ex_frame\<lparr>shape := 1 # shape ex_frame\<rparr>)),
                        (''video.cv'', Arr (ex_frame\<lparr>shape := 1 # shape ex_frame\<rparr>)),
                        (''state.main_arm'',
                           Arr \<lparr>dtype = Float64, shape = [1, 5],
                                data = [data ex_state ! 0, data ex_state ! 1, data ex_state ! 2,
                                        data ex_state ! 3, data ex_state ! 4]\<rparr>),
                        (''state.main_gripper'',
                           Arr \<lparr>dtype = Float64, shape = [1, 1], data = [data ex_state ! 5]\<rparr>),
                        (''state.cv_arm'',
                           Arr \<lparr>dtype = Float64, shape = [1, 5],
                                data = [data ex_state ! 6, data ex_state ! 7, data ex_state ! 8,
                                        data ex_state ! 9, data ex_state ! 10]\<rparr>),
                        (''state.cv_gripper'',
                           Arr \<lparr>dtype = Float64, shape = [1, 1], data = [data ex_state ! 11]\<rparr>),
                        (''annotation.human.action.task_description'', Text [''go''])]"
    by blast
  then have ok: "get_action_obs_dict ''go'' ex_imgs ex_state = Inr ex_obs_dict"
    by (simp add: ex_obs_dict_def ex_frame_def ex_state_def)
  from t ok have 1: "map_of ex_obs_dict ''state.cv_arm''
       = Some (Arr \<lparr>dtype = Float64, shape = [1, 5],
                    data = [data ex_state ! 6, data ex_state ! 7, data ex_state ! 8,
                            data ex_state ! 9, data ex_state ! 10]\<rparr>)"
    and 2: "calls (snd (get_action ex_world ''go'' ex_imgs ex_state s0))
       = calls s0 @ [PolicyGetAction ex_obs_dict]" by blast+
  from 1 have 3: "map_of ex_obs_dict ''state.cv_arm''
       = Some (Arr \<lparr>dtype = Float64, shape = [1, 5], data = [7, 8, 9, 10, 11]\<rparr>)"
    by (simp add: ex_state_def)
  show ?thesis using sh len k f ok 3 2 by blast
qed

section \<open>Properties of the action chunk\<close>

lemma comprehension_Inr_Cons:
  "comprehension f (x # xs) = Inr ys \<longleftrightarrow>
   (\<exists>y ys'. f x = Inr y \<and> comprehension f xs = Inr ys' \<and> ys = y # ys')"
  by (auto split: sum.splits)




section \<open>Properties of \<open>SO100Robot.__init__\<close>\<close>

lemma update_fresh: "k \<notin> set (map fst al) \<Longrightarrow> AList.update k v al = al @ [(k, v)]"
  by (induction al) auto

lemma motor_indices_loop_layout:
  "distinct (map fst acc @ map fst arms) \<Longrightarrow>
   motor_indices_loop arms st acc = acc @ layout arms st"
proof (induction arms st acc rule: motor_indices_loop.induct)
  case (1 st acc)
  then show ?case by simp
next
  case (2 arm_name arm rest st acc)
  have fresh: "arm_name \<notin> set (map fst acc)" using "2.prems" by auto
  have d: "distinct (map fst (acc @ [(arm_name, \<lparr>start_entry = st,
               end_entry = st + length (motor_names arm),
               motor_names_entry = motor_names arm\<rparr>)]) @ map fst rest)"
    using "2.prems" by auto
  show ?case
    using "2.IH" [OF refl] d fresh by (simp add: update_fresh Let_def)
qed

lemma layout_keys: "map fst (layout arms st) = map fst arms"
  by (induction arms st rule: layout.induct) auto

lemma layout_length: "length (layout arms st) = length arms"
  by (induction arms st rule: layout.induct) auto

lemma layout_hd: "arms \<noteq> [] \<Longrightarrow> start_entry (snd (hd (layout arms st))) = st"
  by (cases arms) auto

lemma layout_entry:
  "i < length arms \<Longrightarrow>
   end_entry (snd (layout arms st ! i))
     = start_entry (snd (layout arms st ! i)) + length (motor_names_entry (snd (layout arms st ! i)))
   \<and> motor_names_entry (snd (layout arms st ! i)) = motor_names (snd (arms ! i))"
proof (induction arms st arbitrary: i rule: layout.induct)
  case (1 st)
  then show ?case by simp
next
  case (2 arm_name arm rest st)
  then show ?case by (cases i) auto
qed

lemma layout_next:
  "Suc i < length arms \<Longrightarrow>
   start_entry (snd (layout arms st ! Suc i)) = end_entry (snd (layout arms st ! i))"
proof (induction arms st arbitrary: i rule: layout.induct)
  case (1 st)
  then show ?case by simp
next
  case (2 arm_name arm rest st)
  show ?case
  proof (cases i)
    case 0
    then show ?thesis using "2.prems" by (cases rest) auto
  next
    case (Suc k)
    then show ?thesis using "2.prems" "2.IH" [of k] by simp
  qed
qed

lemma init_Inr:
  "SO100Robot_init pe mkc mkr en = Inr self \<Longrightarrow>
   pe \<and> mkr (config self) = Inr (robot self)
   \<and> config self = (if en then mkc calibration_path else (mkc calibration_path)\<lparr>config_cameras := []\<rparr>)
   \<and> enable_camera self = en
   \<and> motor_indices self = motor_indices_loop (follower_arms (robot self)) 0 []"
  by (auto simp: SO100Robot_init_def bind_e_def Let_def split: if_splits sum.splits)

text \<open>
  C10. After \<open>__init__\<close>, \<open>motor_indices\<close> has the follower arms in their order; the
  first arm starts at 0, every arm ends at its start plus the number of its motor names, and
  every later arm starts where the arm before it ends. The follower arms are a dict, so
  their names are distinct.
\<close>

theorem motor_indices_contiguous:
  assumes init: "SO100Robot_init path_exists So100RobotConfig make_robot_from_config enable_cam = Inr self"
    and dict: "distinct (map fst (follower_arms (robot self)))"
  shows "map fst (motor_indices self) = map fst (follower_arms (robot self))
    \<and> (motor_indices self \<noteq> [] \<longrightarrow> start_entry (snd (hd (motor_indices self))) = 0)
    \<and> (\<forall>i < length (motor_indices self).
          end_entry (snd (motor_indices self ! i))
            = start_entry (snd (motor_indices self ! i))
              + length (motor_names_entry (snd (motor_indices self ! i)))
          \<and> motor_names_entry (snd (motor_indices self ! i))
            = motor_names (snd (follower_arms (robot self) ! i)))
    \<and> (\<forall>i. Suc i < length (motor_indices self) \<longrightarrow>
          start_entry (snd (motor_indices self ! Suc i)) = end_entry (snd (motor_indices self ! i)))"
proof -
  let ?arms = "follower_arms (robot self)"
  have mi: "motor_indices self = layout ?arms 0"
    using init_Inr [OF init] motor_indices_loop_layout [of "[]" ?arms 0] dict by simp
  have ne: "layout ?arms 0 \<noteq> [] \<Longrightarrow> ?arms \<noteq> []" by auto
  show ?thesis
    unfolding mi
    using layout_keys [of ?arms 0] layout_hd [of ?arms 0] layout_entry [of _ ?arms 0]
      layout_next [of _ ?arms 0] ne
    by (simp add: layout_length)
qed

theorem motor_indices_contiguous_witness:
  "SO100Robot_init True ex_So100RobotConfig ex_make_robot True = Inr ex_self
   \<and> distinct (map fst (follower_arms (robot ex_self)))
   \<and> map fst (motor_indices ex_self) = [''main'', ''cv'']
   \<and> start_entry (snd (hd (motor_indices ex_self))) = 0
   \<and> end_entry (snd (motor_indices ex_self ! 0)) = 6
   \<and> start_entry (snd (motor_indices ex_self ! Suc 0)) = end_entry (snd (motor_indices ex_self ! 0))
   \<and> end_entry (snd (motor_indices ex_self ! Suc 0)) = 12"
proof -
  have init: "SO100Robot_init True ex_So100RobotConfig ex_make_robot True = Inr ex_self"
    by (simp add: SO100Robot_init_def ex_So100RobotConfig_def ex_make_robot_def ex_self_def
        ex_robot_def bind_e_def so100_motors_def)
  have dict: "distinct (map fst (follower_arms (robot ex_self)))"
    by (simp add: ex_self_def ex_robot_def)
  show ?thesis
    using init dict motor_indices_contiguous [OF init dict]
    by (simp add: ex_self_def ex_robot_def so100_motors_def)
qed

section \<open>Cameras are optional\<close>

text \<open>
  C4. With \<open>enable_camera=False\<close> the camera configuration is emptied before the robot is
  made; a robot factory that makes one camera device per configured camera then makes none,
  and \<open>get_all_camera_images\<close> returns the empty dict without any call. With
  \<open>enable_camera=True\<close> the configuration reaches the factory unchanged.
\<close>

theorem camera_option:
  "(SO100Robot_init path_exists So100RobotConfig make_robot_from_config False = Inr self \<longrightarrow>
      config_cameras (config self) = []
      \<and> make_robot_from_config ((So100RobotConfig calibration_path)\<lparr>config_cameras := []\<rparr>)
          = Inr (robot self)
      \<and> ((\<forall>cfg rb. make_robot_from_config cfg = Inr rb \<longrightarrow>
              map fst (cameras rb) = map fst (config_cameras cfg)) \<longrightarrow>
           cameras (robot self) = [] \<and> get_all_camera_images w self s = (Inr [], s)))
   \<and> (SO100Robot_init path_exists So100RobotConfig make_robot_from_config True = Inr self' \<longrightarrow>
      config self' = So100RobotConfig calibration_path
      \<and> make_robot_from_config (So100RobotConfig calibration_path) = Inr (robot self')
      \<and> ((\<forall>cfg rb. make_robot_from_config cfg = Inr rb \<longrightarrow>
              map fst (cameras rb) = map fst (config_cameras cfg)) \<longrightarrow>
           map fst (cameras (robot self')) = map fst (config_cameras (So100RobotConfig calibration_path))))"
proof (intro conjI impI)
  assume init: "SO100Robot_init path_exists So100RobotConfig make_robot_from_config False = Inr self"
  note i = init_Inr [OF init]
  show c: "config_cameras (config self) = []" using i by simp
  from i have mk: "make_robot_from_config (config self) = Inr (robot self)" by blast
  from i have cf: "config self = (So100RobotConfig calibration_path)\<lparr>config_cameras := []\<rparr>"
    by simp
  show m: "make_robot_from_config ((So100RobotConfig calibration_path)\<lparr>config_cameras := []\<rparr>)
          = Inr (robot self)" using mk unfolding cf .
  assume f: "\<forall>cfg rb. make_robot_from_config cfg = Inr rb \<longrightarrow>
              map fst (cameras rb) = map fst (config_cameras cfg)"
  from f m have "map fst (cameras (robot self))
      = map fst (config_cameras ((So100RobotConfig calibration_path)\<lparr>config_cameras := []\<rparr>))"
    by blast
  then show e: "cameras (robot self) = []" by simp
  show "get_all_camera_images w self s = (Inr [], s)"
    by (simp add: get_all_camera_images_def e return_def)
next
  assume init: "SO100Robot_init path_exists So100RobotConfig make_robot_from_config True = Inr self'"
  note i = init_Inr [OF init]
  show c: "config self' = So100RobotConfig calibration_path" using i by simp
  from i have mk: "make_robot_from_config (config self') = Inr (robot self')" by blast
  show m: "make_robot_from_config (So100RobotConfig calibration_path) = Inr (robot self')"
    using mk unfolding c .
  assume f: "\<forall>cfg rb. make_robot_from_config cfg = Inr rb \<longrightarrow>
              map fst (cameras rb) = map fst (config_cameras cfg)"
  from f m show "map fst (cameras (robot self')) = map fst (config_cameras (So100RobotConfig calibration_path))"
    by blast
qed

section \<open>Properties of \<open>connect\<close>\<close>


section \<open>Properties of \<open>disconnect\<close> and \<open>activate\<close>\<close>

lemma torque_loop_quiet:
  assumes "\<forall>h. call_raises w h = None"
  shows "for_each arms (\<lambda>(arm_name, arm).
           ext_call w (BusWrite arm_name ''Torque_Enable'' (TorqueMode_DISABLED w))) s
    = (Inr (), s\<lparr>calls := calls s @ map (torque_off w) arms\<rparr>)"
proof (induction arms arbitrary: s)
  case Nil
  then show ?case by (simp add: return_def)
next
  case (Cons a arms)
  obtain n b where a: "a = (n, b)" by (cases a)
  show ?case
    using Cons.IH ext_call_quiet [OF assms]
    by (simp add: a torque_off_def bind_def)
qed

lemma run_calls_append:
  "run_calls w (xs @ ys) h
     = (case run_calls w xs h of (None, h') \<Rightarrow> run_calls w ys h' | (Some e, h') \<Rightarrow> (Some e, h'))"
  by (induction xs arbitrary: h) (simp_all split: option.splits)

lemma run_calls_quiet: "\<forall>h. call_raises w h = None \<Longrightarrow> run_calls w cs h = (None, h @ cs)"
  by (induction cs arbitrary: h) simp_all

lemma torque_loop_run:
  "for_each arms (\<lambda>(arm_name, arm).
           ext_call w (BusWrite arm_name ''Torque_Enable'' (TorqueMode_DISABLED w))) s
    = (case run_calls w (map (torque_off w) arms) (calls s) of
         (None, h) \<Rightarrow> (Inr (), s\<lparr>calls := h\<rparr>)
       | (Some e, h) \<Rightarrow> (Inl e, s\<lparr>calls := h\<rparr>))"
proof (induction arms arbitrary: s)
  case Nil
  then show ?case by (simp add: return_def)
next
  case (Cons a arms)
  obtain n b where a: "a = (n, b)" by (cases a)
  let ?c = "BusWrite n ''Torque_Enable'' (TorqueMode_DISABLED w)"
  let ?body = "\<lambda>(arm_name, arm).
           ext_call w (BusWrite arm_name ''Torque_Enable'' (TorqueMode_DISABLED w))"
  have step: "for_each (a # arms) ?body s = bind (ext_call w ?c) (\<lambda>_. for_each arms ?body) s"
    by (simp add: a)
  have t: "torque_off w a = ?c" by (simp add: a torque_off_def)
  show ?case
  proof (cases "call_raises w (calls s @ [?c])")
    case None
    then have "ext_call w ?c s = (Inr (), s\<lparr>calls := calls s @ [?c]\<rparr>)"
      by (simp add: ext_call_apply)
    then have e: "for_each (a # arms) ?body s = for_each arms ?body (s\<lparr>calls := calls s @ [?c]\<rparr>)"
      unfolding step by (rule bind_Inr)
    have r: "run_calls w (map (torque_off w) (a # arms)) (calls s)
        = run_calls w (map (torque_off w) arms) (calls s @ [?c])"
      using None by (simp add: t)
    show ?thesis
      unfolding e r Cons.IH by (simp split: prod.splits option.splits)
  next
    case (Some e)
    then have "ext_call w ?c s = (Inl e, s\<lparr>calls := calls s @ [?c]\<rparr>)"
      by (simp add: ext_call_apply)
    then have e: "for_each (a # arms) ?body s = (Inl e, s\<lparr>calls := calls s @ [?c]\<rparr>)"
      unfolding step by (rule bind_Inl)
    have r: "run_calls w (map (torque_off w) (a # arms)) (calls s) = (Some e, calls s @ [?c])"
      using Some by (simp add: t)
    show ?thesis
      unfolding e r by simp
  qed
qed

lemma disconnect_run:
  assumes "is_connected s"
  shows "disconnect w self s
    = (case run_calls w (map (torque_off w) (follower_arms (robot self)) @ [RobotDisconnect]) (calls s) of
         (None, h) \<Rightarrow> (Inr (), \<lparr>is_connected = False, calls = h\<rparr>)
       | (Some e, h) \<Rightarrow>
           (if is_Exception e then Inr () else Inl e, \<lparr>is_connected = True, calls = h\<rparr>))"
proof -
  let ?W = "map (torque_off w) (follower_arms (robot self))"
  let ?guarded = "bind (disable w self) (\<lambda>_. bind (ext_call w RobotDisconnect) (\<lambda>_. set_connected False))"
  have d: "disable w self s
    = (case run_calls w ?W (calls s) of
         (None, h) \<Rightarrow> (Inr (), s\<lparr>calls := h\<rparr>)
       | (Some e, h) \<Rightarrow> (Inl e, s\<lparr>calls := h\<rparr>))"
    using assms by (simp add: disable_def torque_loop_run)
  have c: "s\<lparr>calls := h\<rparr> = \<lparr>is_connected = True, calls = h\<rparr>" for h
    using assms by (cases s) simp
  have t: "?guarded s
    = (case run_calls w (?W @ [RobotDisconnect]) (calls s) of
         (None, h) \<Rightarrow> (Inr (), \<lparr>is_connected = False, calls = h\<rparr>)
       | (Some e, h) \<Rightarrow> (Inl e, \<lparr>is_connected = True, calls = h\<rparr>))"
  proof (cases "run_calls w ?W (calls s)")
    case (Pair r h)
    show ?thesis
    proof (cases r)
      case None
      then show ?thesis
        using Pair d c
        by (simp add: bind_apply run_calls_append ext_call_apply set_connected_def
            split: option.splits)
    next
      case (Some e)
      then show ?thesis
        using Pair d c by (simp add: bind_apply run_calls_append)
    qed
  qed
  have "disconnect w self s
      = (case ?guarded s of
           (Inl e, s') \<Rightarrow> if is_Exception e then (Inr (), s') else (Inl e, s')
         | (Inr x, s') \<Rightarrow> (Inr x, s'))"
    using assms by (simp add: disconnect_def try_except_Exception_def return_def)
  then show ?thesis
    unfolding t by (auto split: prod.splits option.splits)
qed

lemma disconnect_quiet:
  assumes "\<forall>h. call_raises w h = None"
  shows "disconnect w self s =
    (Inr (), if is_connected s
             then \<lparr>is_connected = False,
                   calls = calls s @ map (torque_off w) (follower_arms (robot self)) @ [RobotDisconnect]\<rparr>
             else s)"
  using torque_loop_quiet [OF assms] ext_call_quiet [OF assms]
  by (simp add: disconnect_def try_except_Exception_def disable_def bind_def set_connected_def)

lemma disconnect_not_connected:
  "\<not> is_connected s \<Longrightarrow> disconnect w self s = (Inr (), s)"
  by (simp add: disconnect_def try_except_Exception_def)

lemma disconnect_raises:
  "fst (disconnect w self s) = Inl e \<Longrightarrow> \<not> is_Exception e"
  by (auto simp: disconnect_def try_except_Exception_def return_def split: prod.splits sum.splits if_splits)

lemma disconnect_swallows:
  assumes "is_connected s"
    and "run_calls w (map (torque_off w) (follower_arms (robot self)) @ [RobotDisconnect]) (calls s)
           = (Some e, h)"
    and "is_Exception e"
  shows "disconnect w self s = (Inr (), \<lparr>is_connected = True, calls = h\<rparr>)"
  using assms by (simp add: disconnect_run)

lemma try_finally_run:
  "m s = (r, s1) \<Longrightarrow>
   try_finally m fin s = (case fin s1 of (Inl e, s2) \<Rightarrow> (Inl e, s2) | (Inr u, s2) \<Rightarrow> (r, s2))"
  by (simp add: try_finally_def)

lemma failing_first:
  "disconnect failing_world ex_self \<lparr>is_connected = True, calls = []\<rparr>
   = (Inr (), \<lparr>is_connected = True,
       calls = [BusWrite ''main'' ''Torque_Enable'' 0, BusWrite ''cv'' ''Torque_Enable'' 0,
                RobotDisconnect]\<rparr>)"
  by (simp add: disconnect_run failing_world_def ex_self_def ex_robot_def torque_off_def)

lemma failing_second:
  "disconnect failing_world ex_self
     \<lparr>is_connected = True,
       calls = [BusWrite ''main'' ''Torque_Enable'' 0, BusWrite ''cv'' ''Torque_Enable'' 0,
                RobotDisconnect]\<rparr>
   = (Inr (), \<lparr>is_connected = True,
       calls = [BusWrite ''main'' ''Torque_Enable'' 0, BusWrite ''cv'' ''Torque_Enable'' 0,
                RobotDisconnect,
                BusWrite ''main'' ''Torque_Enable'' 0, BusWrite ''cv'' ''Torque_Enable'' 0,
                RobotDisconnect]\<rparr>)"
  by (simp add: disconnect_run failing_world_def ex_self_def ex_robot_def torque_off_def)

lemma interrupted:
  "disconnect interrupting_world ex_self \<lparr>is_connected = True, calls = []\<rparr>
   = (Inl KeyboardInterrupt,
      \<lparr>is_connected = True,
       calls = [BusWrite ''main'' ''Torque_Enable'' 0, BusWrite ''cv'' ''Torque_Enable'' 0,
                RobotDisconnect]\<rparr>)"
  by (simp add: disconnect_run interrupting_world_def ex_self_def ex_robot_def torque_off_def)

text \<open>
  C9, as stated, fails twice. \<open>except Exception\<close> does not catch an exception outside
  \<open>Exception\<close>: when \<open>robot.disconnect()\<close> is interrupted, \<open>disconnect\<close> raises. And
  when \<open>robot.disconnect()\<close> raises an exception that is caught, \<open>is_connected\<close> stays
  true, so that a second \<open>disconnect\<close> writes to the motors and closes the robot again.
\<close>

theorem disconnect_counterexample:
  "disconnect interrupting_world ex_self \<lparr>is_connected = True, calls = []\<rparr>
     = (Inl KeyboardInterrupt,
        \<lparr>is_connected = True,
         calls = [BusWrite ''main'' ''Torque_Enable'' 0, BusWrite ''cv'' ''Torque_Enable'' 0,
                  RobotDisconnect]\<rparr>)
   \<and> disconnect failing_world ex_self \<lparr>is_connected = True, calls = []\<rparr>
     = (Inr (),
        \<lparr>is_connected = True,
         calls = [BusWrite ''main'' ''Torque_Enable'' 0, BusWrite ''cv'' ''Torque_Enable'' 0,
                  RobotDisconnect]\<rparr>)
   \<and> disconnect failing_world ex_self
       \<lparr>is_connected = True,
        calls = [BusWrite ''main'' ''Torque_Enable'' 0, BusWrite ''cv'' ''Torque_Enable'' 0,
                 RobotDisconnect]\<rparr>
     = (Inr (),
        \<lparr>is_connected = True,
         calls = [BusWrite ''main'' ''Torque_Enable'' 0, BusWrite ''cv'' ''Torque_Enable'' 0,
                  RobotDisconnect,
                  BusWrite ''main'' ''Torque_Enable'' 0, BusWrite ''cv'' ''Torque_Enable'' 0,
                  RobotDisconnect]\<rparr>)"
  using interrupted failing_first failing_second by blast

text \<open>
  C9, amended. \<open>disconnect\<close> never raises an exception derived from \<open>Exception\<close>. When
  the robot is not connected it does nothing. When it is connected it disables the torque of
  every follower arm and closes the robot, up to the first call that raises: an exception
  derived from \<open>Exception\<close> is caught and leaves \<open>is_connected\<close> true, any other exception
  is raised, and without an exception \<open>is_connected\<close> becomes false. Whenever it leaves the
  robot disconnected, as it does when no call raises, a second \<open>disconnect\<close> does nothing.
  \<open>activate\<close> runs \<open>disconnect\<close> on exit whatever \<open>connect\<close>,
  \<open>move_to_initial_pose\<close> and the body did, passing their outcome on unless
  \<open>disconnect\<close> itself raises.
\<close>

theorem disconnect_behaviour:
  "(\<forall>e. fst (disconnect w self s) = Inl e \<longrightarrow> \<not> is_Exception e)
   \<and> (\<not> is_connected s \<longrightarrow> disconnect w self s = (Inr (), s))
   \<and> (is_connected s \<longrightarrow>
        disconnect w self s
          = (case run_calls w (map (torque_off w) (follower_arms (robot self)) @ [RobotDisconnect])
                   (calls s) of
               (None, h) \<Rightarrow> (Inr (), \<lparr>is_connected = False, calls = h\<rparr>)
             | (Some e, h) \<Rightarrow>
                 (if is_Exception e then Inr () else Inl e, \<lparr>is_connected = True, calls = h\<rparr>)))
   \<and> (\<not> is_connected (snd (disconnect w self s)) \<longrightarrow>
        disconnect w self (snd (disconnect w self s)) = (Inr (), snd (disconnect w self s)))
   \<and> ((\<forall>h. call_raises w h = None) \<longrightarrow>
        disconnect w self s =
          (Inr (), if is_connected s
                   then \<lparr>is_connected = False,
                         calls = calls s @ map (torque_off w) (follower_arms (robot self))
                                 @ [RobotDisconnect]\<rparr>
                   else s)
        \<and> disconnect w self (snd (disconnect w self s)) = (Inr (), snd (disconnect w self s)))
   \<and> (\<forall>r s1. bind (connect w self) (\<lambda>_. bind (move_to_initial_pose w self) (\<lambda>_. body)) s = (r, s1)
        \<longrightarrow> with_activate w self body s
            = (case disconnect w self s1 of
                 (Inl e, s2) \<Rightarrow> (Inl e, s2)
               | (Inr u, s2) \<Rightarrow> (r, s2)))"
proof (intro conjI impI allI)
  fix e assume "fst (disconnect w self s) = Inl e"
  then show "\<not> is_Exception e" by (rule disconnect_raises)
next
  assume "\<not> is_connected s"
  then show "disconnect w self s = (Inr (), s)" by (rule disconnect_not_connected)
next
  assume "is_connected s"
  then show "disconnect w self s
          = (case run_calls w (map (torque_off w) (follower_arms (robot self)) @ [RobotDisconnect])
                   (calls s) of
               (None, h) \<Rightarrow> (Inr (), \<lparr>is_connected = False, calls = h\<rparr>)
             | (Some e, h) \<Rightarrow>
                 (if is_Exception e then Inr () else Inl e, \<lparr>is_connected = True, calls = h\<rparr>))"
    by (rule disconnect_run)
next
  assume "\<not> is_connected (snd (disconnect w self s))"
  then show "disconnect w self (snd (disconnect w self s)) = (Inr (), snd (disconnect w self s))"
    by (rule disconnect_not_connected)
next
  assume q: "\<forall>h. call_raises w h = None"
  show "disconnect w self s =
          (Inr (), if is_connected s
                   then \<lparr>is_connected = False,
                         calls = calls s @ map (torque_off w) (follower_arms (robot self))
                                 @ [RobotDisconnect]\<rparr>
                   else s)"
    by (rule disconnect_quiet [OF q])
  then have "\<not> is_connected (snd (disconnect w self s))" by simp
  then show "disconnect w self (snd (disconnect w self s)) = (Inr (), snd (disconnect w self s))"
    by (rule disconnect_not_connected)
next
  fix r :: "exn + 'a" and s1
  assume "bind (connect w self) (\<lambda>_. bind (move_to_initial_pose w self) (\<lambda>_. body)) s = (r, s1)"
  then show "with_activate w self body s
            = (case disconnect w self s1 of
                 (Inl e, s2) \<Rightarrow> (Inl e, s2)
               | (Inr u, s2) \<Rightarrow> (r, s2))"
    unfolding with_activate_def by (rule try_finally_run)
qed

section \<open>Properties of \<open>move_to_initial_pose\<close> and \<open>go_home\<close>\<close>

lemma length_concat_replicate: "length (concat (replicate k xs)) = k * length xs"
  by (induction k) simp_all

lemma repeat_pose:
  assumes "shape t = [6]" and "data t = [a, b, c, d, e, f]"
  shows "shape (repeat t k) = [6 * k] \<and> length (data (repeat t k)) = 6 * k
   \<and> data (repeat t k) = concat (replicate k [a, b, c, d, e, f])"
proof -
  have "length (data (repeat t k)) = k * length [a, b, c, d, e, f]"
    by (simp add: repeat_def assms(2) length_concat_replicate del: length_concat)
  then show ?thesis using assms by (simp add: repeat_def)
qed

lemma initial_pose_repeat:
  "shape (repeat initial_pose k) = [6 * k] \<and> length (data (repeat initial_pose k)) = 6 * k
   \<and> data (repeat initial_pose k)
       = concat (replicate k [0, 183.69140625, 162.509796142578125, 60.195301055908203125,
                              -3.2520000934600830078125, -1.09889996051788330078125])"
  by (rule repeat_pose) (simp_all add: initial_pose_def)

lemma home_pose_repeat:
  "shape (repeat home_pose k) = [6 * k] \<and> length (data (repeat home_pose k)) = 6 * k
   \<and> data (repeat home_pose k)
       = concat (replicate k [0, 183.69140625, 162.509796142578125, 100.1952972412109375,
                              -3.2520000934600830078125, -1.09889996051788330078125])"
  by (rule repeat_pose) (simp_all add: home_pose_def)

lemma float32_roundingI:
  "2 ^ 23 \<le> \<bar>m\<bar> \<Longrightarrow> \<bar>m\<bar> < 2 ^ 24 \<Longrightarrow> v = real_of_int m / 2 ^ k
   \<Longrightarrow> \<bar>x - v\<bar> * 2 * 2 ^ k \<le> 1 \<Longrightarrow> float32_rounding x v"
  unfolding float32_rounding_def by blast

lemma float32_183: "float32_rounding 183.6914 183.69140625"
  by (rule float32_roundingI [of 12038400 _ 16]) simp_all

lemma float32_162: "float32_rounding 162.5098 162.509796142578125"
  by (rule float32_roundingI [of 10650242 _ 16]) simp_all

lemma float32_60: "float32_rounding 60.1953 60.195301055908203125"
  by (rule float32_roundingI [of 15779837 _ 18]) simp_all

lemma float32_100: "float32_rounding 100.1953 100.1952972412109375"
  by (rule float32_roundingI [of 13132798 _ 17]) simp_all

lemma float32_3: "float32_rounding (-3.2520) (-3.2520000934600830078125)"
  by (rule float32_roundingI [of "-13639877" _ 22]) simp_all

lemma float32_1: "float32_rounding (-1.0989) (-1.09889996051788330078125)"
  by (rule float32_roundingI [of "-9218241" _ 23]) simp_all

lemma float32_0: "float32_rounding 0.0000 0"
  by (simp add: float32_rounding_def)

lemma poses_float32:
  "list_all2 float32_rounding [0.0000, 183.6914, 162.5098, 60.1953, -3.2520, -1.0989]
     (data initial_pose)
   \<and> list_all2 float32_rounding [0.0000, 183.6914, 162.5098, 100.1953, -3.2520, -1.0989]
     (data home_pose)"
  unfolding initial_pose_def home_pose_def
  using float32_0 float32_183 float32_162 float32_60 float32_100 float32_3 float32_1
  by (simp only: ndarray.simps list_all2_Cons list_all2_Nil simp_thms)

lemma move_prefix:
  "\<exists>n. calls (snd (move_to_initial_pose w self s))
        = calls s @ take n [CaptureObservation, CaptureObservation,
                            SendAction (repeat initial_pose (length (follower_arms (robot self)))),
                            Sleep 2]"
proof -
  let ?T = "SendAction (repeat initial_pose (length (follower_arms (robot self))))"
  let ?all = "[CaptureObservation, CaptureObservation, ?T, Sleep 2]"
  have "calls (snd (move_to_initial_pose w self s)) = calls s @ take 1 ?all
      \<or> calls (snd (move_to_initial_pose w self s)) = calls s @ take 2 ?all
      \<or> calls (snd (move_to_initial_pose w self s)) = calls s @ take 3 ?all
      \<or> calls (snd (move_to_initial_pose w self s)) = calls s @ take 4 ?all"
    by (auto simp: move_to_initial_pose_def bind_def lift_def ext_call_def
        ext_capture_observation_def Let_def split: sum.splits option.splits)
  then show ?thesis by blast
qed

lemma move_sends:
  assumes "capture_observation_result w (calls s @ [CaptureObservation]) = Inr obs"
    and "getkey obs ''observation.state'' = Inr st"
    and "capture_observation_result w (calls s @ [CaptureObservation, CaptureObservation]) = Inr obs2"
  shows "\<exists>rest. calls (snd (move_to_initial_pose w self s))
        = calls s @ [CaptureObservation, CaptureObservation,
                     SendAction (repeat initial_pose (length (follower_arms (robot self))))] @ rest"
  using assms
  by (auto simp: move_to_initial_pose_def bind_def lift_def ext_call_def
      ext_capture_observation_def Let_def split: sum.splits option.splits)

lemma move_returns:
  assumes "\<forall>h. call_raises w h = None"
    and "\<forall>h. \<exists>obs st. capture_observation_result w h = Inr obs
                     \<and> getkey obs ''observation.state'' = Inr st"
  shows "move_to_initial_pose w self s
     = (Inr (), s\<lparr>calls := calls s @ [CaptureObservation, CaptureObservation,
                     SendAction (repeat initial_pose (length (follower_arms (robot self)))),
                     Sleep 2]\<rparr>)"
proof -
  from assms(2) obtain obs st where
    1: "capture_observation_result w (calls s @ [CaptureObservation]) = Inr obs"
    and 2: "getkey obs ''observation.state'' = Inr st" by blast
  from assms(2) obtain obs2 where
    3: "capture_observation_result w (calls s @ [CaptureObservation, CaptureObservation]) = Inr obs2"
    by blast
  show ?thesis
    using 1 2 3 assms(1)
    by (simp add: move_to_initial_pose_def bind_def lift_def ext_call_def
        ext_capture_observation_def Let_def)
qed

lemma go_home_sends:
  "\<exists>rest. calls (snd (go_home w self s))
        = calls s @ SendAction (repeat home_pose (length (follower_arms (robot self)))) # rest"
  by (auto simp: go_home_def set_target_state_def bind_def ext_call_def Let_def
      split: option.splits)

lemma go_home_returns:
  assumes "\<forall>h. call_raises w h = None"
  shows "go_home w self s
     = (Inr (), s\<lparr>calls := calls s @ [SendAction (repeat home_pose (length (follower_arms (robot self)))),
                                       Sleep 2]\<rparr>)"
  using assms by (simp add: go_home_def set_target_state_def bind_def ext_call_def Let_def)

text \<open>
  C7. \<open>move_to_initial_pose\<close> and \<open>go_home\<close> each send a fixed pose of 6 elements
  repeated once per follower arm, so that for \<open>k\<close> arms the tensor has length \<open>6 * k\<close>.
  \<open>go_home\<close> sends it as its first call in every run. \<open>move_to_initial_pose\<close> makes,
  in every run, a beginning of the calls capture, capture, send, sleep: it sends as soon as the
  two observations are there, whatever state they hold, and it returns when no call raises.
  The poses are the \<open>float32\<close> roundings of the literals of the source.
\<close>

theorem poses_sent:
  "(\<exists>n. calls (snd (move_to_initial_pose w self s))
          = calls s @ take n [CaptureObservation, CaptureObservation,
                              SendAction (repeat initial_pose (length (follower_arms (robot self)))),
                              Sleep 2])
   \<and> (\<forall>obs st obs2.
         capture_observation_result w (calls s @ [CaptureObservation]) = Inr obs
         \<and> getkey obs ''observation.state'' = Inr st
         \<and> capture_observation_result w (calls s @ [CaptureObservation, CaptureObservation]) = Inr obs2
         \<longrightarrow> (\<exists>rest. calls (snd (move_to_initial_pose w self s))
                = calls s @ [CaptureObservation, CaptureObservation,
                     SendAction (repeat initial_pose (length (follower_arms (robot self))))] @ rest))
   \<and> ((\<forall>h. call_raises w h = None)
        \<and> (\<forall>h. \<exists>obs st. capture_observation_result w h = Inr obs
                     \<and> getkey obs ''observation.state'' = Inr st)
        \<longrightarrow> move_to_initial_pose w self s
            = (Inr (), s\<lparr>calls := calls s @ [CaptureObservation, CaptureObservation,
                     SendAction (repeat initial_pose (length (follower_arms (robot self)))),
                     Sleep 2]\<rparr>))
   \<and> (\<forall>s'. move_to_initial_pose w self s = (Inr (), s') \<longrightarrow>
       calls s' = calls s @ [CaptureObservation, CaptureObservation,
                             SendAction (repeat initial_pose (length (follower_arms (robot self)))),
                             Sleep 2])
   \<and> (\<exists>rest. calls (snd (go_home w self s))
          = calls s @ SendAction (repeat home_pose (length (follower_arms (robot self)))) # rest)
   \<and> ((\<forall>h. call_raises w h = None)
        \<longrightarrow> go_home w self s
            = (Inr (), s\<lparr>calls := calls s
                 @ [SendAction (repeat home_pose (length (follower_arms (robot self)))), Sleep 2]\<rparr>))
   \<and> (\<forall>s'. go_home w self s = (Inr (), s') \<longrightarrow>
       calls s' = calls s @ [SendAction (repeat home_pose (length (follower_arms (robot self)))),
                             Sleep 2])
   \<and> shape (repeat initial_pose k) = [6 * k]
   \<and> length (data (repeat initial_pose k)) = 6 * k
   \<and> data (repeat initial_pose k)
       = concat (replicate k [0, 183.69140625, 162.509796142578125, 60.195301055908203125,
                              -3.2520000934600830078125, -1.09889996051788330078125])
   \<and> shape (repeat home_pose k) = [6 * k]
   \<and> length (data (repeat home_pose k)) = 6 * k
   \<and> data (repeat home_pose k)
       = concat (replicate k [0, 183.69140625, 162.509796142578125, 100.1952972412109375,
                              -3.2520000934600830078125, -1.09889996051788330078125])
   \<and> list_all2 float32_rounding [0.0000, 183.6914, 162.5098, 60.1953, -3.2520, -1.0989]
        (data initial_pose)
   \<and> list_all2 float32_rounding [0.0000, 183.6914, 162.5098, 100.1953, -3.2520, -1.0989]
        (data home_pose)"
proof (intro conjI impI allI)
  show "\<exists>n. calls (snd (move_to_initial_pose w self s))
          = calls s @ take n [CaptureObservation, CaptureObservation,
                              SendAction (repeat initial_pose (length (follower_arms (robot self)))),
                              Sleep 2]"
    by (rule move_prefix)
next
  fix obs st obs2
  assume "capture_observation_result w (calls s @ [CaptureObservation]) = Inr obs
         \<and> getkey obs ''observation.state'' = Inr st
         \<and> capture_observation_result w (calls s @ [CaptureObservation, CaptureObservation]) = Inr obs2"
  then show "\<exists>rest. calls (snd (move_to_initial_pose w self s))
                = calls s @ [CaptureObservation, CaptureObservation,
                     SendAction (repeat initial_pose (length (follower_arms (robot self))))] @ rest"
    using move_sends by blast
next
  assume "(\<forall>h. call_raises w h = None)
        \<and> (\<forall>h. \<exists>obs st. capture_observation_result w h = Inr obs
                     \<and> getkey obs ''observation.state'' = Inr st)"
  then show "move_to_initial_pose w self s
            = (Inr (), s\<lparr>calls := calls s @ [CaptureObservation, CaptureObservation,
                     SendAction (repeat initial_pose (length (follower_arms (robot self)))),
                     Sleep 2]\<rparr>)"
    using move_returns by blast
next
  fix s'
  assume "move_to_initial_pose w self s = (Inr (), s')"
  then show "calls s' = calls s @ [CaptureObservation, CaptureObservation,
                             SendAction (repeat initial_pose (length (follower_arms (robot self)))),
                             Sleep 2]"
    by (auto simp: move_to_initial_pose_def Let_def ext_call_Inr_iff ext_capture_Inr_iff lift_Inr_iff
        elim!: bind_InrE)
next
  show "\<exists>rest. calls (snd (go_home w self s))
          = calls s @ SendAction (repeat home_pose (length (follower_arms (robot self)))) # rest"
    by (rule go_home_sends)
next
  assume "\<forall>h. call_raises w h = None"
  then show "go_home w self s
            = (Inr (), s\<lparr>calls := calls s
                 @ [SendAction (repeat home_pose (length (follower_arms (robot self)))), Sleep 2]\<rparr>)"
    by (rule go_home_returns)
next
  fix s'
  assume "go_home w self s = (Inr (), s')"
  then show "calls s' = calls s @ [SendAction (repeat home_pose (length (follower_arms (robot self)))),
                             Sleep 2]"
    by (auto simp: go_home_def set_target_state_def Let_def ext_call_Inr_iff elim!: bind_InrE)
qed (insert initial_pose_repeat [of k] home_pose_repeat [of k] poses_float32, blast+)

section \<open>The calls of a run that returns\<close>




lemma for_each_Cons_InrE:
  assumes "for_each (x # xs) body s = (Inr u, s')"
  obtains s1 where "body x s = (Inr (), s1)" and "for_each xs body s1 = (Inr u, s')"
  using assms by (auto simp: bind_def split: prod.splits sum.splits)

lemma for_each_Inr_calls:
  assumes "\<And>x s s'. x \<in> set xs \<Longrightarrow> body x s = (Inr (), s') \<Longrightarrow> calls s' = calls s @ g x"
    and "for_each xs body s = (Inr u, s')"
  shows "calls s' = calls s @ concat (map g xs)"
  using assms
proof (induction xs arbitrary: s)
  case Nil
  then show ?case by (simp add: return_iff)
next
  case (Cons x xs)
  from Cons.prems(2) obtain s1 where 1: "body x s = (Inr (), s1)"
    and 2: "for_each xs body s1 = (Inr u, s')"
    by (rule for_each_Cons_InrE)
  have "calls s1 = calls s @ g x" using Cons.prems(1) [OF _ 1] by simp
  moreover have "calls s' = calls s1 @ concat (map g xs)"
    using Cons.IH [OF _ 2] Cons.prems(1) by simp
  ultimately show ?case by simp
qed


lemma subplot_body_Inr:
  "bind (ext_call w (PltSubplot rows cols (int i + 1))) (\<lambda>_.
   bind (ext_call w (PltImshow img)) (\<lambda>_.
   ext_call w (PltAxis ''off''))) s = (Inr u, s')
   \<Longrightarrow> calls s' = calls s @ subplot_calls rows cols (i, img)"
  by (auto elim!: bind_InrE simp: ext_call_Inr_iff subplot_calls_def)

lemma subplot_loop_Inr:
  assumes "for_each xs (\<lambda>(i, img).
       bind (ext_call w (PltSubplot rows cols (int i + 1))) (\<lambda>_.
       bind (ext_call w (PltImshow img)) (\<lambda>_.
       ext_call w (PltAxis ''off'')))) s = (Inr u, s')"
  shows "calls s' = calls s @ concat (map (subplot_calls rows cols) xs)"
proof (rule for_each_Inr_calls [OF _ assms])
  fix x :: "nat \<times> ndarray option" and s s'
  assume "(case x of (i, img) \<Rightarrow>
       bind (ext_call w (PltSubplot rows cols (int i + 1))) (\<lambda>_.
       bind (ext_call w (PltImshow img)) (\<lambda>_.
       ext_call w (PltAxis ''off'')))) s = (Inr (), s')"
  then show "calls s' = calls s @ subplot_calls rows cols x"
    by (cases x) (simp add: subplot_body_Inr)
qed

lemma view_imgs_Inr:
  assumes "view_imgs w imgs s = (Inr (), s')"
  shows "\<exists>rows cols. view_imgs_grid (int (length (imgs_list imgs))) = Inr (rows, cols)
     \<and> calls s' = calls s
         @ concat (map (subplot_calls rows cols) (zip [0..<length (imgs_list imgs)] (imgs_list imgs)))
         @ [PltPause 0.001, PltClf]"
  using assms
  by (auto simp: view_imgs_def Let_def lift_Inr_iff ext_call_Inr_iff
      elim!: bind_InrE dest!: subplot_loop_Inr)

lemma replicate_3_more: "x # x # x # replicate n x = replicate (3 + n) x"
  by (simp add: numeral_3_eq_3)

lemma replicate_2_more: "replicate n x @ [x, x] = replicate (n + 2) x"
  by (simp add: replicate_app_Cons_same)

lemma subplot_steps:
  "map step_of (concat (map (subplot_calls rows cols) xs)) = replicate (3 * length xs) Display"
  by (induction xs) (auto simp: subplot_calls_def replicate_3_more)

lemma view_imgs_steps:
  assumes "view_imgs w imgs s = (Inr (), s')"
  shows "map step_of (calls s') = map step_of (calls s)
           @ replicate (3 * length (imgs_list imgs) + 2) Display"
proof -
  from view_imgs_Inr [OF assms] obtain rows cols where
    "calls s' = calls s
         @ concat (map (subplot_calls rows cols) (zip [0..<length (imgs_list imgs)] (imgs_list imgs)))
         @ [PltPause 0.001, PltClf]" by blast
  then have "map step_of (calls s') = map step_of (calls s)
           @ replicate (3 * length (imgs_list imgs)) Display @ [Display, Display]"
    by (simp add: subplot_steps)
  then show ?thesis by (simp only: replicate_2_more)
qed












lemma view_imgs_calls:
  assumes "view_imgs w (ImgDict imgs) s = (Inr (), s')"
  shows "calls s' = calls s @ view_calls imgs"
  using view_imgs_Inr [OF assms] by (auto simp: view_calls_def)

lemma view_calls_steps:
  assumes "view_imgs w (ImgDict imgs) s = (Inr (), s')"
  shows "map step_of (view_calls imgs) = replicate (3 * length imgs + 2) Display"
  using view_imgs_steps [OF assms] view_imgs_calls [OF assms] by simp









section \<open>The grid that \<open>view_imgs\<close> displays\<close>


section \<open>The calls of any run\<close>

lemma emitsI:
  "(\<And>s. \<exists>es. calls (snd (m s)) = calls s @ es \<and> P (fst (m s)) es) \<Longrightarrow> emits m P"
  by (simp add: emits_def)

lemma emitsD:
  "emits m P \<Longrightarrow> m s = (r, s') \<Longrightarrow> \<exists>es. calls s' = calls s @ es \<and> P r es"
  by (auto simp: emits_def dest: spec [of _ s])

lemma emits_weaken:
  "emits m P \<Longrightarrow> (\<And>r es. P r es \<Longrightarrow> Q r es) \<Longrightarrow> emits m Q"
  by (fastforce simp: emits_def)

lemma emits_return: "P (Inr x) [] \<Longrightarrow> emits (return x) P"
  by (simp add: emits_def return_def)

lemma emits_lift: "P r [] \<Longrightarrow> emits (lift r) P"
  by (simp add: emits_def lift_def)

lemma emits_ext_call: "(\<And>r. P r [c]) \<Longrightarrow> emits (ext_call w c) P"
  by (simp add: emits_def ext_call_def Let_def)

lemma emits_capture: "(\<And>r. P r [CaptureObservation]) \<Longrightarrow> emits (ext_capture_observation w) P"
  by (simp add: emits_def ext_capture_observation_def Let_def)

lemma emits_policy: "(\<And>r. P r [PolicyGetAction obs]) \<Longrightarrow> emits (ext_policy_get_action w obs) P"
  by (simp add: emits_def ext_policy_get_action_def Let_def)

lemma emits_bind:
  assumes m: "emits m P"
    and f: "\<And>x. emits (f x) (Q x)"
    and fail: "\<And>e es. P (Inl e) es \<Longrightarrow> R (Inl e) es"
    and ok: "\<And>x es r es'. P (Inr x) es \<Longrightarrow> Q x r es' \<Longrightarrow> R r (es @ es')"
  shows "emits (bind m f) R"
proof (rule emitsI)
  fix s
  obtain r s1 where ms: "m s = (r, s1)" by (cases "m s")
  from emitsD [OF m ms] obtain es where es: "calls s1 = calls s @ es" and P: "P r es" by blast
  show "\<exists>es. calls (snd (bind m f s)) = calls s @ es \<and> R (fst (bind m f s)) es"
  proof (cases r)
    case (Inl e)
    then show ?thesis using ms es P fail by (auto simp: bind_def)
  next
    case (Inr x)
    obtain r2 s2 where fs: "f x s1 = (r2, s2)" by (cases "f x s1")
    from emitsD [OF f fs] obtain es' where es': "calls s2 = calls s1 @ es'" and Q: "Q x r2 es'"
      by blast
    have "bind m f s = (r2, s2)" using ms Inr fs by (simp add: bind_def)
    moreover have "calls s2 = calls s @ (es @ es')" using es es' by simp
    moreover have "R r2 (es @ es')" using ok P Q Inr by blast
    ultimately show ?thesis by (metis fst_conv snd_conv)
  qed
qed

lemma emits_for_each:
  assumes body: "\<And>x. x \<in> set xs \<Longrightarrow> emits (body x) B"
    and ok: "\<And>u es es'. I es \<Longrightarrow> B (Inr u) es' \<Longrightarrow> I (es @ es')"
    and fail: "\<And>e es es'. I es \<Longrightarrow> B (Inl e) es' \<Longrightarrow> F (es @ es')"
    and init: "I acc"
  shows "emits (for_each xs body)
           (\<lambda>r es. case r of Inr u \<Rightarrow> I (acc @ es) | Inl e \<Rightarrow> F (acc @ es))"
  using body init
proof (induction xs arbitrary: acc)
  case Nil
  then show ?case by (simp add: emits_return)
next
  case (Cons x xs)
  have b: "emits (body x) B" using Cons.prems(1) by simp
  show ?case
  proof (rule emitsI)
    fix s
    obtain r s1 where bs: "body x s = (r, s1)" by (cases "body x s")
    from emitsD [OF b bs] obtain es1 where es1: "calls s1 = calls s @ es1" and B: "B r es1"
      by blast
    show "\<exists>es. calls (snd (for_each (x # xs) body s)) = calls s @ es
            \<and> (case fst (for_each (x # xs) body s) of
                  Inr u \<Rightarrow> I (acc @ es) | Inl e \<Rightarrow> F (acc @ es))"
    proof (cases r)
      case (Inl e)
      have "F (acc @ es1)" using fail [OF Cons.prems(2)] B Inl by simp
      then show ?thesis using bs Inl es1 by (auto simp: bind_def)
    next
      case (Inr u)
      have I1: "I (acc @ es1)" using ok [OF Cons.prems(2)] B Inr by simp
      have "emits (for_each xs body)
           (\<lambda>r es. case r of Inr u \<Rightarrow> I ((acc @ es1) @ es) | Inl e \<Rightarrow> F ((acc @ es1) @ es))"
        using Cons.IH [OF _ I1] Cons.prems(1) by simp
      then obtain es2 where es2: "calls (snd (for_each xs body s1)) = calls s1 @ es2"
        and R: "case fst (for_each xs body s1) of
                  Inr u \<Rightarrow> I ((acc @ es1) @ es2) | Inl e \<Rightarrow> F ((acc @ es1) @ es2)"
        unfolding emits_def by blast
      have run: "for_each (x # xs) body s = for_each xs body s1"
        using bs Inr by (simp add: bind_def)
      show ?thesis
        unfolding run using es1 es2 R by (intro exI [of _ "es1 @ es2"]) (simp split: sum.splits)
    qed
  qed
qed

lemma emits_for_acc:
  assumes body: "\<And>x a. x \<in> set xs \<Longrightarrow> emits (body x a) B"
    and ok: "\<And>a es es'. I es \<Longrightarrow> B (Inr a) es' \<Longrightarrow> I (es @ es')"
    and fail: "\<And>e es es'. I es \<Longrightarrow> B (Inl e) es' \<Longrightarrow> F (es @ es')"
    and init: "I acc"
  shows "emits (for_acc xs a0 body)
           (\<lambda>r es. case r of Inr u \<Rightarrow> I (acc @ es) | Inl e \<Rightarrow> F (acc @ es))"
  using body init
proof (induction xs arbitrary: acc a0)
  case Nil
  then show ?case by (simp add: emits_return)
next
  case (Cons x xs)
  have b: "emits (body x a0) B" using Cons.prems(1) by simp
  show ?case
  proof (rule emitsI)
    fix s
    obtain r s1 where bs: "body x a0 s = (r, s1)" by (cases "body x a0 s")
    from emitsD [OF b bs] obtain es1 where es1: "calls s1 = calls s @ es1" and B: "B r es1"
      by blast
    show "\<exists>es. calls (snd (for_acc (x # xs) a0 body s)) = calls s @ es
            \<and> (case fst (for_acc (x # xs) a0 body s) of
                  Inr u \<Rightarrow> I (acc @ es) | Inl e \<Rightarrow> F (acc @ es))"
    proof (cases r)
      case (Inl e)
      have "F (acc @ es1)" using fail [OF Cons.prems(2)] B Inl by simp
      then show ?thesis using bs Inl es1 by (auto simp: bind_def)
    next
      case (Inr a1)
      have I1: "I (acc @ es1)" using ok [OF Cons.prems(2)] B Inr by simp
      have "emits (for_acc xs a1 body)
           (\<lambda>r es. case r of Inr u \<Rightarrow> I ((acc @ es1) @ es) | Inl e \<Rightarrow> F ((acc @ es1) @ es))"
        using Cons.IH [OF _ I1] Cons.prems(1) by simp
      then obtain es2 where es2: "calls (snd (for_acc xs a1 body s1)) = calls s1 @ es2"
        and R: "case fst (for_acc xs a1 body s1) of
                  Inr u \<Rightarrow> I ((acc @ es1) @ es2) | Inl e \<Rightarrow> F ((acc @ es1) @ es2)"
        unfolding emits_def by blast
      have run: "for_acc (x # xs) a0 body s = for_acc xs a1 body s1"
        using bs Inr by (simp add: bind_def)
      show ?thesis
        unfolding run using es1 es2 R by (intro exI [of _ "es1 @ es2"]) (simp split: sum.splits)
    qed
  qed
qed

subsection \<open>Programs that neither command the actuators nor sleep\<close>

lemma quiet_Nil: "quiet []"
  by (simp add: quiet_def)

lemma quiet_append: "quiet (xs @ ys) \<longleftrightarrow> quiet xs \<and> quiet ys"
  by (simp add: quiet_def)

lemma quiet_bind:
  "emits m (\<lambda>r. quiet) \<Longrightarrow> (\<And>x. emits (f x) (\<lambda>r. quiet)) \<Longrightarrow> emits (bind m f) (\<lambda>r. quiet)"
  by (rule emits_bind [where P = "\<lambda>r. quiet" and Q = "\<lambda>x r. quiet"]) (simp_all add: quiet_append)

lemma quiet_return: "emits (return x) (\<lambda>r. quiet)"
  by (rule emits_return) (rule quiet_Nil)

lemma quiet_lift: "emits (lift r) (\<lambda>r. quiet)"
  by (rule emits_lift) (rule quiet_Nil)

lemma quiet_ext_call: "\<not> is_send c \<Longrightarrow> \<not> is_sleep c \<Longrightarrow> emits (ext_call w c) (\<lambda>r. quiet)"
  by (rule emits_ext_call) (simp add: quiet_def)

lemma quiet_capture: "emits (ext_capture_observation w) (\<lambda>r. quiet)"
  by (rule emits_capture) (simp add: quiet_def)

lemma quiet_policy: "emits (ext_policy_get_action w obs) (\<lambda>r. quiet)"
  by (rule emits_policy) (simp add: quiet_def)

lemma quiet_for_each:
  assumes "\<And>x. x \<in> set xs \<Longrightarrow> emits (body x) (\<lambda>r. quiet)"
  shows "emits (for_each xs body) (\<lambda>r. quiet)"
proof -
  have "emits (for_each xs body) (\<lambda>r es. case r of Inr u \<Rightarrow> quiet ([] @ es) | Inl e \<Rightarrow> quiet ([] @ es))"
    by (rule emits_for_each [where B = "\<lambda>r. quiet"]) (simp_all add: assms quiet_append quiet_Nil)
  then show ?thesis by (rule emits_weaken) (simp split: sum.splits)
qed

lemma quiet_for_acc:
  assumes "\<And>x a. x \<in> set xs \<Longrightarrow> emits (body x a) (\<lambda>r. quiet)"
  shows "emits (for_acc xs a0 body) (\<lambda>r. quiet)"
proof -
  have "emits (for_acc xs a0 body) (\<lambda>r es. case r of Inr u \<Rightarrow> quiet ([] @ es) | Inl e \<Rightarrow> quiet ([] @ es))"
    by (rule emits_for_acc [where B = "\<lambda>r. quiet"]) (simp_all add: assms quiet_append quiet_Nil)
  then show ?thesis by (rule emits_weaken) (simp split: sum.splits)
qed

lemmas quiet_intros = quiet_bind quiet_return quiet_lift quiet_ext_call quiet_capture quiet_policy
  quiet_for_each quiet_for_acc

lemma quiet_get_current_state: "emits (get_current_state w) (\<lambda>r. quiet)"
  unfolding get_current_state_def get_observation_def by (intro quiet_intros)

lemma quiet_get_current_img: "emits (get_current_img w self cam) (\<lambda>r. quiet)"
  unfolding get_current_img_def get_observation_def
  by (cases "cam \<in> set (map fst (cameras (robot self)))") (simp_all add: quiet_intros)

lemma quiet_get_all_camera_images: "emits (get_all_camera_images w self) (\<lambda>r. quiet)"
  unfolding get_all_camera_images_def by (intro quiet_intros quiet_get_current_img)

lemma quiet_view_imgs: "emits (view_imgs w imgs) (\<lambda>r. quiet)"
  unfolding view_imgs_def Let_def
  by (intro quiet_intros | simp add: split_def)+


lemma quiet_log_loop:
  "emits (for_each xs (\<lambda>j.
       bind (lift (getitem st j)) (\<lambda>sj.
       bind (ext_call w (RrLog ''gr00t_so100/joint_positions'' j sj)) (\<lambda>_.
       bind (lift (getitem ca j)) (\<lambda>cj.
       ext_call w (RrLog ''gr00t_so100/action'' j cj)))))) (\<lambda>r. quiet)"
  by (intro quiet_intros) simp_all

lemma quiet_inner_rest:
  "emits (bind (get_all_camera_images w self) (\<lambda>imgs.
     bind (view_imgs w (ImgDict imgs)) (\<lambda>_.
     bind (get_current_state w) (\<lambda>st.
     bind (ext_call w (RrSetTimeSeconds ''time'')) (\<lambda>_.
     bind (lift (len ca)) (\<lambda>n.
     for_each [0..<n] (\<lambda>j.
       bind (lift (getitem st j)) (\<lambda>sj.
       bind (ext_call w (RrLog ''gr00t_so100/joint_positions'' j sj)) (\<lambda>_.
       bind (lift (getitem ca j)) (\<lambda>cj.
       ext_call w (RrLog ''gr00t_so100/action'' j cj))))))))))) (\<lambda>r. quiet)"
  by (intro quiet_intros quiet_get_all_camera_images quiet_view_imgs quiet_get_current_state
      quiet_log_loop) simp_all

lemma bind_lift: "bind (lift r) f = (case r of Inl e \<Rightarrow> raise e | Inr x \<Rightarrow> f x)"
  by (auto simp: bind_def lift_def raise_def fun_eq_iff split: sum.splits)

lemma emits_raise: "P (Inl e) [] \<Longrightarrow> emits (raise e) P"
  by (simp add: emits_def raise_def)

lemma inner_body_emits: "emits (inner_body w self act i) inner_pattern"
proof (cases "concat_action act i")
  case (Inl e)
  then show ?thesis
    by (simp add: inner_body_def bind_lift emits_raise inner_pattern_def)
next
  case ca: (Inr ca)
  show ?thesis
  proof (cases "assert_shape_12 ca")
    case (Inl e)
    then show ?thesis
      using ca by (simp add: inner_body_def bind_lift emits_raise inner_pattern_def)
  next
    case (Inr u)
    let ?rest = "bind (get_all_camera_images w self) (\<lambda>imgs.
     bind (view_imgs w (ImgDict imgs)) (\<lambda>_.
     bind (get_current_state w) (\<lambda>st.
     bind (ext_call w (RrSetTimeSeconds ''time'')) (\<lambda>_.
     bind (lift (len ca)) (\<lambda>n.
     for_each [0..<n] (\<lambda>j.
       bind (lift (getitem st j)) (\<lambda>sj.
       bind (ext_call w (RrLog ''gr00t_so100/joint_positions'' j sj)) (\<lambda>_.
       bind (lift (getitem ca j)) (\<lambda>cj.
       ext_call w (RrLog ''gr00t_so100/action'' j cj))))))))))"
    have body: "inner_body w self act i =
      bind (set_target_state w ca) (\<lambda>_. bind (ext_call w (Sleep 0.01)) (\<lambda>_. ?rest))"
      using ca Inr by (simp add: inner_body_def bind_lift)
    have sleep: "emits (bind (ext_call w (Sleep 0.01)) (\<lambda>_. ?rest))
                   (\<lambda>r es. \<exists>rest. es = Sleep 0.01 # rest \<and> quiet rest)"
    proof (rule emits_bind [where P = "\<lambda>r es. es = [Sleep 0.01]" and Q = "\<lambda>x r. quiet"])
      show "emits (ext_call w (Sleep 0.01)) (\<lambda>r es. es = [Sleep 0.01])"
        by (rule emits_ext_call) (rule refl)
      show "emits ?rest (\<lambda>r. quiet)" by (rule quiet_inner_rest)
      show "es = [Sleep 0.01] \<Longrightarrow> \<exists>rest. es = Sleep 0.01 # rest \<and> quiet rest" for es
        by (simp add: quiet_Nil)
      show "es = [Sleep 0.01] \<Longrightarrow> quiet es' \<Longrightarrow> \<exists>rest. es @ es' = Sleep 0.01 # rest \<and> quiet rest"
        for es es' by simp
    qed
    show ?thesis
      unfolding body set_target_state_def
    proof (rule emits_bind [where P = "\<lambda>r es. es = [SendAction ca]"
            and Q = "\<lambda>x r es. \<exists>rest. es = Sleep 0.01 # rest \<and> quiet rest"])
      show "emits (ext_call w (SendAction ca)) (\<lambda>r es. es = [SendAction ca])"
        by (rule emits_ext_call) (rule refl)
      show "emits (bind (ext_call w (Sleep 0.01)) (\<lambda>_. ?rest))
              (\<lambda>r es. \<exists>rest. es = Sleep 0.01 # rest \<and> quiet rest)"
        by (rule sleep)
      show "es = [SendAction ca] \<Longrightarrow> inner_pattern (Inl e) es" for e es
        by (simp add: inner_pattern_def)
      show "es = [SendAction ca] \<Longrightarrow> \<exists>rest. es' = Sleep 0.01 # rest \<and> quiet rest
            \<Longrightarrow> inner_pattern r (es @ es')" for es r es'
        by (auto simp: inner_pattern_def)
    qed
  qed
qed

subsection \<open>Pacing\<close>

lemma pace_append:
  "pace b (xs @ ys) = (case pace b xs of None \<Rightarrow> None | Some b' \<Rightarrow> pace b' ys)"
  by (induction xs arbitrary: b) simp_all

lemma pace_quiet: "quiet es \<Longrightarrow> pace b es = Some b"
  by (induction es arbitrary: b) (auto simp: quiet_def)

lemma pace_needs_sleep: "pace True ys = Some False \<Longrightarrow> Sleep 0.01 \<in> set ys"
proof (induction ys)
  case Nil
  then show ?case by simp
next
  case (Cons c cs)
  then show ?case by (auto split: if_splits)
qed

lemma pace_between:
  assumes "pace b es \<noteq> None" and "es = xs @ SendAction a1 # ys @ SendAction a2 # zs"
  shows "Sleep 0.01 \<in> set ys"
proof -
  from assms obtain b1 where b1: "pace b xs = Some b1"
    and r1: "pace b1 (SendAction a1 # ys @ SendAction a2 # zs) \<noteq> None"
    by (auto simp: pace_append split: option.splits)
  from r1 have r2: "pace True (ys @ SendAction a2 # zs) \<noteq> None"
    by (auto split: if_splits)
  then obtain b2 where b2: "pace True ys = Some b2" and r3: "pace b2 (SendAction a2 # zs) \<noteq> None"
    by (auto simp: pace_append split: option.splits)
  from r3 have "b2 = False" by (auto split: if_splits)
  with b2 have "pace True ys = Some False" by simp
  then show ?thesis by (rule pace_needs_sleep)
qed

lemma quiet_fixed_sleeps: "quiet es \<Longrightarrow> fixed_sleeps es"
  by (induction es) (auto simp: quiet_def fixed_sleeps_def)

lemma fixed_sleeps_Cons:
  "fixed_sleeps (c # cs) \<longleftrightarrow> (is_sleep c \<longrightarrow> c = Sleep 0.01) \<and> fixed_sleeps cs"
  by (simp add: fixed_sleeps_def)

lemma fixed_sleeps_Nil: "fixed_sleeps []"
  by (simp add: fixed_sleeps_def)

lemma fixed_sleeps_append: "fixed_sleeps (xs @ ys) \<longleftrightarrow> fixed_sleeps xs \<and> fixed_sleeps ys"
  by (simp add: fixed_sleeps_def)

lemma inner_pattern_ok:
  "inner_pattern (Inr u) es \<Longrightarrow> pace False es = Some False \<and> fixed_sleeps es"
  by (auto simp: inner_pattern_def pace_quiet fixed_sleeps_Cons intro: quiet_fixed_sleeps)

lemma inner_pattern_fail:
  "inner_pattern (Inl e) es \<Longrightarrow> pace False es \<noteq> None \<and> fixed_sleeps es"
  by (auto simp: inner_pattern_def pace_quiet fixed_sleeps_Cons fixed_sleeps_Nil
      intro: quiet_fixed_sleeps)

lemma inner_loop_emits:
  "emits (for_each xs (inner_body w self act))
     (\<lambda>r es. pace False es \<noteq> None \<and> fixed_sleeps es
             \<and> ((\<exists>u. r = Inr u) \<longrightarrow> pace False es = Some False))"
proof -
  have "emits (for_each xs (inner_body w self act))
     (\<lambda>r es. case r of
        Inr u \<Rightarrow> pace False ([] @ es) = Some False \<and> fixed_sleeps ([] @ es)
      | Inl e \<Rightarrow> pace False ([] @ es) \<noteq> None \<and> fixed_sleeps ([] @ es))"
  proof (rule emits_for_each [where B = inner_pattern])
    show "emits (inner_body w self act x) inner_pattern" for x by (rule inner_body_emits)
  next
    fix u es es'
    assume "pace False es = Some False \<and> fixed_sleeps es" and "inner_pattern (Inr u) es'"
    then show "pace False (es @ es') = Some False \<and> fixed_sleeps (es @ es')"
      using inner_pattern_ok [of u es'] by (simp add: pace_append fixed_sleeps_append)
  next
    fix e es es'
    assume "pace False es = Some False \<and> fixed_sleeps es" and "inner_pattern (Inl e) es'"
    then show "pace False (es @ es') \<noteq> None \<and> fixed_sleeps (es @ es')"
      using inner_pattern_fail [of e es'] by (simp add: pace_append fixed_sleeps_append)
  next
    show "pace False [] = Some False \<and> fixed_sleeps []" by (simp add: fixed_sleeps_Nil)
  qed
  then show ?thesis by (rule emits_weaken) (auto split: sum.splits)
qed

lemma new_calls_append: "calls s' = calls s @ es \<Longrightarrow> new_calls s s' = es"
  by (simp add: new_calls_def)

section \<open>Runs that return\<close>

lemma getitem_in_range:
  "shape a = n # sh \<Longrightarrow> j < n \<Longrightarrow> \<exists>r. getitem a j = Inr r"
  by (simp add: getitem_def)

lemma log_loop_quiet:
  assumes q: "\<forall>h. call_raises w h = None"
    and ok: "\<forall>j \<in> set xs. (\<exists>sj. getitem st j = Inr sj) \<and> (\<exists>cj. getitem ca j = Inr cj)"
  shows "for_each xs (\<lambda>j.
       bind (lift (getitem st j)) (\<lambda>sj.
       bind (ext_call w (RrLog ''gr00t_so100/joint_positions'' j sj)) (\<lambda>_.
       bind (lift (getitem ca j)) (\<lambda>cj.
       ext_call w (RrLog ''gr00t_so100/action'' j cj))))) s
    = (Inr (), s\<lparr>calls := calls s @ concat (map (log_calls st ca) xs)\<rparr>)"
  using ok
proof (induction xs arbitrary: s)
  case Nil
  then show ?case by (simp add: return_def)
next
  case (Cons x xs)
  from Cons.prems obtain sj cj where sj: "getitem st x = Inr sj" and cj: "getitem ca x = Inr cj"
    by auto
  have rest: "\<forall>j \<in> set xs. (\<exists>sj. getitem st j = Inr sj) \<and> (\<exists>cj. getitem ca j = Inr cj)"
    using Cons.prems by simp
  show ?case
    using Cons.IH [OF rest] sj cj ext_call_quiet [OF q]
    by (simp add: bind_def lift_def log_calls_def)
qed















text \<open>
  C5. In the inner loop, whatever the libraries answer and however the loop ends, a sleep of
  0.01 seconds lies between sending one actuator command and sending the next, and the loop
  sleeps for no other duration.
\<close>

theorem sleep_between_sends:
  assumes run: "for_each [0..<nat ACTION_HORIZON] (inner_body w self act) s = (r, s')"
  shows "calls s' = calls s @ new_calls s s'
       \<and> (\<forall>xs a1 ys a2 zs.
             new_calls s s' = xs @ SendAction a1 # ys @ SendAction a2 # zs
             \<longrightarrow> Sleep 0.01 \<in> set ys)
       \<and> (\<forall>d. Sleep d \<in> set (new_calls s s') \<longrightarrow> d = 0.01)"
proof -
  from emitsD [OF inner_loop_emits run] obtain es where
    es: "calls s' = calls s @ es" and p: "pace False es \<noteq> None" and f: "fixed_sleeps es"
    by blast
  have n: "new_calls s s' = es" by (rule new_calls_append [OF es])
  have "Sleep d \<in> set es \<Longrightarrow> d = 0.01" for d
    using f unfolding fixed_sleeps_def list_all_iff by fastforce
  then show ?thesis
    unfolding n using es pace_between [OF p] by blast
qed

section \<open>The order of the steps in the main loop\<close>







section \<open>The properties at a concrete robot\<close>

text \<open>The runs of the program in the world where no call raises.\<close>

lemma ex_quiet: "\<forall>h. call_raises ex_world h = None"
  by (simp add: ex_world_def)

lemma ex_call: "ext_call ex_world c s = (Inr (), s\<lparr>calls := calls s @ [c]\<rparr>)"
  by (rule ext_call_quiet [OF ex_quiet])

lemma ex_capture:
  "ext_capture_observation ex_world s = (Inr ex_observation, s\<lparr>calls := calls s @ [CaptureObservation]\<rparr>)"
  by (simp add: ext_capture_observation_def ex_world_def Let_def)

lemma ex_get_current_state:
  "get_current_state ex_world s = (Inr ex_state, s\<lparr>calls := calls s @ [CaptureObservation]\<rparr>)"
  by (simp add: get_current_state_def get_observation_def bind_def ex_capture lift_def getkey_def
      ex_observation_def)

lemma ex_cvtColor: "cvtColor_BGR2RGB ex_world ex_frame_bgr = Inr ex_frame"
  by (simp add: ex_world_def ex_frame_bgr_def ex_frame_def)

lemma ex_get_current_img:
  assumes "cam = ''webcam'' \<or> cam = ''main'' \<or> cam = ''cv''"
  shows "get_current_img ex_world ex_self cam s
    = (Inr (Some ex_frame), s\<lparr>calls := calls s @ [CaptureObservation]\<rparr>)"
  using assms
  by (auto simp: get_current_img_def get_observation_def bind_def ex_capture lift_def getkey_def
      ex_observation_def return_def ex_self_def ex_robot_def ex_cvtColor)

lemma ex_get_all_camera_images:
  "get_all_camera_images ex_world ex_self s
    = (Inr ex_imgs, s\<lparr>calls := calls s @ [CaptureObservation, CaptureObservation, CaptureObservation]\<rparr>)"
proof -
  have c: "map fst (cameras (robot ex_self)) = [''webcam'', ''main'', ''cv'']"
    by (simp add: ex_self_def ex_robot_def)
  show ?thesis
    unfolding get_all_camera_images_def c
    by (simp add: bind_def ex_get_current_img return_def ex_imgs_def)
qed

lemma ex_view_imgs:
  "view_imgs ex_world (ImgDict ex_imgs) s = (Inr (), s\<lparr>calls := calls s @ ex_display_calls\<rparr>)"
proof -
  have z: "zip [0..<length (imgs_list (ImgDict ex_imgs))] (imgs_list (ImgDict ex_imgs))
    = [(0, Some ex_frame), (1, Some ex_frame), (2, Some ex_frame)]"
    by (simp add: ex_imgs_def upt_rec)
  have g: "view_imgs_grid (int (length (imgs_list (ImgDict ex_imgs)))) = Inr (1, 3)"
    by (simp add: ex_imgs_def view_imgs_grid_def)
  show ?thesis
    unfolding view_imgs_def Let_def z g
    by (simp add: bind_def lift_def return_def ex_call ex_display_calls_def)
qed


lemma ex_inner_body:
  assumes ca: "concat_action ex_action i = Inr ca" and sh: "shape ca = [12]"
  shows "inner_body ex_world ex_self ex_action i s
    = (Inr (), s\<lparr>calls := calls s @ ex_inner_calls ca\<rparr>)"
proof -
  have ok: "\<forall>j \<in> set [0..<12]. (\<exists>sj. getitem ex_state j = Inr sj) \<and> (\<exists>cj. getitem ca j = Inr cj)"
    using sh by (auto simp: ex_state_def intro!: getitem_in_range)
  note logs = log_loop_quiet [OF ex_quiet ok]
  show ?thesis
    unfolding inner_body_def
    by (simp add: ca sh bind_apply lift_apply assert_shape_12_def set_target_state_def ex_call
        ex_get_all_camera_images ex_view_imgs ex_get_current_state len_def logs
        ex_inner_calls_def ex_rest_calls_def)
qed

lemma ex_concat_actions:
  "concat_action ex_action 0 = Inr ex_concat_0 \<and> concat_action ex_action 1 = Inr ex_concat_1"
  by (simp add: concat_action_def MODALITY_KEYS_def modality_step_def getkey_def getitem_def
      atleast_1d_def bind_e_def concatenate_def ex_action_def ex_concat_0_def ex_concat_1_def)


lemma ex_inner_loop:
  "for_each [0..<nat 2] (inner_body ex_world ex_self ex_action) s0
    = (Inr (), \<lparr>is_connected = True, calls = ex_inner_calls ex_concat_0 @ ex_inner_calls ex_concat_1\<rparr>)"
proof -
  have ca0: "concat_action ex_action 0 = Inr ex_concat_0"
    and ca1: "concat_action ex_action (Suc 0) = Inr ex_concat_1" using ex_concat_actions by simp_all
  have sh: "shape ex_concat_0 = [12]" "shape ex_concat_1 = [12]"
    by (simp_all add: ex_concat_0_def ex_concat_1_def)
  have u: "[0..<nat 2] = [0, Suc 0]" by (simp add: upt_rec)
  show ?thesis
    unfolding u
    by (simp add: bind_apply ex_inner_body [OF ca0 sh(1)] ex_inner_body [OF ca1 sh(2)]
        return_def s0_def)
qed

lemma ex_connect:
  "connect ex_world ex_self s_off = (Inr (), \<lparr>is_connected = True, calls = ex_connect_calls\<rparr>)"
proof -
  have a: "follower_arms (robot ex_self)
      = [(''main'', \<lparr>motor_names = so100_motors\<rparr>), (''cv'', \<lparr>motor_names = so100_motors\<rparr>)]"
    by (simp add: ex_self_def ex_robot_def)
  show ?thesis
    using arms_loop_quiet [OF ex_quiet, of "follower_arms (robot ex_self)"]
    by (simp add: connect_def s_off_def bind_apply ex_call set_connected_def a ex_connect_calls_def)
qed

lemma ex_move_to_initial_pose:
  "move_to_initial_pose ex_world ex_self s
     = (Inr (), s\<lparr>calls := calls s @ ex_initial_calls\<rparr>)"
  by (simp add: move_to_initial_pose_def bind_apply lift_apply ex_capture ex_call getkey_def
      ex_observation_def Let_def ex_initial_calls_def ex_self_def ex_robot_def numeral_2_eq_2)

lemma ex_go_home:
  "go_home ex_world ex_self s
     = (Inr (), s\<lparr>calls := calls s @ [SendAction (repeat home_pose 2), Sleep 2]\<rparr>)"
  by (simp add: go_home_def set_target_state_def bind_apply ex_call Let_def ex_self_def ex_robot_def
      numeral_2_eq_2)

lemma ex_disconnect:
  "disconnect ex_world ex_self s0 = (Inr (), \<lparr>is_connected = False, calls = ex_disconnect_calls\<rparr>)"
  using disconnect_quiet [OF ex_quiet, of ex_self s0]
  by (simp add: s0_def ex_self_def ex_robot_def torque_off_def ex_world_def ex_disconnect_calls_def)

lemma ex_interrupted:
  "disconnect interrupting_world ex_self s0
   = (Inl KeyboardInterrupt, \<lparr>is_connected = True, calls = ex_disconnect_calls\<rparr>)"
  by (simp add: disconnect_def try_except_Exception_def disable_def bind_def ext_call_def
      return_def interrupting_world_def ex_self_def ex_robot_def s0_def ex_disconnect_calls_def)

lemma ex_try_part:
  "bind (connect ex_world ex_self) (\<lambda>_.
     bind (move_to_initial_pose ex_world ex_self) (\<lambda>_. raise (LibraryError ''stop''))) s_off
   = (Inl (LibraryError ''stop''),
      \<lparr>is_connected = True, calls = ex_connect_calls @ ex_initial_calls\<rparr>)"
  by (simp add: bind_apply ex_connect ex_move_to_initial_pose raise_def)

lemma ex_disconnect_after:
  "disconnect ex_world ex_self \<lparr>is_connected = True, calls = ex_connect_calls @ ex_initial_calls\<rparr>
   = (Inr (), \<lparr>is_connected = False,
                calls = (ex_connect_calls @ ex_initial_calls) @ ex_disconnect_calls\<rparr>)"
  using disconnect_quiet [OF ex_quiet, of ex_self
      "\<lparr>is_connected = True, calls = ex_connect_calls @ ex_initial_calls\<rparr>"]
  by (simp add: ex_self_def ex_robot_def torque_off_def ex_world_def ex_disconnect_calls_def)

lemma ex_factory:
  "\<forall>cfg rb. ex_make_robot cfg = Inr rb \<longrightarrow> map fst (cameras rb) = map fst (config_cameras cfg)"
  by (auto simp: ex_make_robot_def split_def comp_def)

text \<open>The theorems above, used at this robot.\<close>





theorem camera_option_witness:
  "SO100Robot_init True ex_So100RobotConfig ex_make_robot False = Inr ex_self_nocam
   \<and> SO100Robot_init True ex_So100RobotConfig ex_make_robot True = Inr ex_self
   \<and> config_cameras (config ex_self_nocam) = []
   \<and> cameras (robot ex_self_nocam) = []
   \<and> get_all_camera_images ex_world ex_self_nocam s0 = (Inr [], s0)
   \<and> map fst (cameras (robot ex_self)) = [''webcam'', ''main'', ''cv'']"
proof -
  have f: "SO100Robot_init True ex_So100RobotConfig ex_make_robot False = Inr ex_self_nocam"
    by (simp add: SO100Robot_init_def ex_So100RobotConfig_def ex_make_robot_def ex_self_nocam_def
        ex_robot_def bind_e_def so100_motors_def)
  have t: "SO100Robot_init True ex_So100RobotConfig ex_make_robot True = Inr ex_self"
    by (simp add: SO100Robot_init_def ex_So100RobotConfig_def ex_make_robot_def ex_self_def
        ex_robot_def bind_e_def so100_motors_def)
  note c = camera_option [of True ex_So100RobotConfig ex_make_robot ex_self_nocam ex_world s0 ex_self]
  from c f ex_factory have 1: "config_cameras (config ex_self_nocam) = []"
    and 2: "cameras (robot ex_self_nocam) = []"
    and 3: "get_all_camera_images ex_world ex_self_nocam s0 = (Inr [], s0)" by blast+
  from c t ex_factory have "map fst (cameras (robot ex_self))
      = map fst (config_cameras (ex_So100RobotConfig calibration_path))" by blast
  then have 4: "map fst (cameras (robot ex_self)) = [''webcam'', ''main'', ''cv'']"
    by (simp add: ex_So100RobotConfig_def)
  show ?thesis using f t 1 2 3 4 by blast
qed

theorem sleep_between_sends_witness:
  "for_each [0..<nat 2] (inner_body ex_world ex_self ex_action) s0
     = (Inr (), \<lparr>is_connected = True,
                  calls = ex_inner_calls ex_concat_0 @ ex_inner_calls ex_concat_1\<rparr>)
   \<and> new_calls s0 \<lparr>is_connected = True,
                    calls = ex_inner_calls ex_concat_0 @ ex_inner_calls ex_concat_1\<rparr>
       = [] @ SendAction ex_concat_0 # (Sleep 0.01 # ex_rest_calls ex_concat_0)
         @ SendAction ex_concat_1 # (Sleep 0.01 # ex_rest_calls ex_concat_1)
   \<and> Sleep 0.01 \<in> set (Sleep 0.01 # ex_rest_calls ex_concat_0)"
proof -
  have n: "new_calls s0 \<lparr>is_connected = True,
                    calls = ex_inner_calls ex_concat_0 @ ex_inner_calls ex_concat_1\<rparr>
       = [] @ SendAction ex_concat_0 # (Sleep 0.01 # ex_rest_calls ex_concat_0)
         @ SendAction ex_concat_1 # (Sleep 0.01 # ex_rest_calls ex_concat_1)"
    by (simp add: new_calls_def s0_def ex_inner_calls_def)
  from sleep_between_sends [OF ex_inner_loop] n
  have "Sleep 0.01 \<in> set (Sleep 0.01 # ex_rest_calls ex_concat_0)" by blast
  then show ?thesis using ex_inner_loop n by blast
qed


theorem poses_sent_witness:
  "capture_observation_result ex_world (calls s0 @ [CaptureObservation]) = Inr ex_observation
   \<and> getkey ex_observation ''observation.state'' = Inr ex_state
   \<and> capture_observation_result ex_world (calls s0 @ [CaptureObservation, CaptureObservation])
       = Inr ex_observation
   \<and> move_to_initial_pose ex_world ex_self s0
       = (Inr (), s0\<lparr>calls := calls s0 @ [CaptureObservation, CaptureObservation,
                     SendAction (repeat initial_pose (length (follower_arms (robot ex_self)))),
                     Sleep 2]\<rparr>)
   \<and> go_home ex_world ex_self s0
       = (Inr (), s0\<lparr>calls := calls s0
            @ [SendAction (repeat home_pose (length (follower_arms (robot ex_self)))), Sleep 2]\<rparr>)
   \<and> length (follower_arms (robot ex_self)) = 2
   \<and> shape (repeat initial_pose 2) = [12]
   \<and> length (data (repeat home_pose 2)) = 12"
proof -
  have c: "capture_observation_result ex_world h = Inr ex_observation" for h
    by (simp add: ex_world_def)
  have k: "getkey ex_observation ''observation.state'' = Inr ex_state"
    by (simp add: getkey_def ex_observation_def)
  have cs: "\<forall>h. \<exists>obs st. capture_observation_result ex_world h = Inr obs
                     \<and> getkey obs ''observation.state'' = Inr st"
    using c k by blast
  have n: "length (follower_arms (robot ex_self)) = 2" by (simp add: ex_self_def ex_robot_def)
  note p = poses_sent [of ex_world ex_self s0 2]
  from p ex_quiet cs have m: "move_to_initial_pose ex_world ex_self s0
       = (Inr (), s0\<lparr>calls := calls s0 @ [CaptureObservation, CaptureObservation,
                     SendAction (repeat initial_pose (length (follower_arms (robot ex_self)))),
                     Sleep 2]\<rparr>)" by blast
  from p ex_quiet have g: "go_home ex_world ex_self s0
       = (Inr (), s0\<lparr>calls := calls s0
            @ [SendAction (repeat home_pose (length (follower_arms (robot ex_self)))), Sleep 2]\<rparr>)"
    by blast
  from p have 2: "shape (repeat initial_pose 2) = [6 * 2]"
    and 3: "length (data (repeat home_pose 2)) = 6 * 2" by blast+
  show ?thesis using c k m g n 2 3 by simp
qed


theorem disconnect_behaviour_witness:
  "fst (disconnect interrupting_world ex_self s0) = Inl KeyboardInterrupt
   \<and> \<not> is_Exception KeyboardInterrupt
   \<and> \<not> is_connected s_off
   \<and> disconnect ex_world ex_self s_off = (Inr (), s_off)
   \<and> is_connected s0
   \<and> run_calls failing_world
        (map (torque_off failing_world) (follower_arms (robot ex_self)) @ [RobotDisconnect]) (calls s0)
       = (Some (LibraryError ''port is busy''), ex_disconnect_calls)
   \<and> disconnect failing_world ex_self s0
       = (Inr (), \<lparr>is_connected = True, calls = ex_disconnect_calls\<rparr>)
   \<and> disconnect ex_world ex_self s0
       = (Inr (), \<lparr>is_connected = False, calls = ex_disconnect_calls\<rparr>)
   \<and> \<not> is_connected (snd (disconnect ex_world ex_self s0))
   \<and> disconnect ex_world ex_self \<lparr>is_connected = False, calls = ex_disconnect_calls\<rparr>
       = (Inr (), \<lparr>is_connected = False, calls = ex_disconnect_calls\<rparr>)
   \<and> bind (connect ex_world ex_self) (\<lambda>_.
        bind (move_to_initial_pose ex_world ex_self) (\<lambda>_. raise (LibraryError ''stop''))) s_off
       = (Inl (LibraryError ''stop''),
          \<lparr>is_connected = True, calls = ex_connect_calls @ ex_initial_calls\<rparr>)
   \<and> with_activate ex_world ex_self (raise (LibraryError ''stop'')) s_off
       = (Inl (LibraryError ''stop''),
          \<lparr>is_connected = False,
           calls = (ex_connect_calls @ ex_initial_calls) @ ex_disconnect_calls\<rparr>)"
proof -
  have i: "fst (disconnect interrupting_world ex_self s0) = Inl KeyboardInterrupt"
    by (simp add: ex_interrupted)
  have off: "\<not> is_connected s_off" by (simp add: s_off_def)
  have on: "is_connected s0" by (simp add: s0_def)
  have rc: "run_calls failing_world
        (map (torque_off failing_world) (follower_arms (robot ex_self)) @ [RobotDisconnect]) (calls s0)
       = (Some (LibraryError ''port is busy''), ex_disconnect_calls)"
    by (simp add: failing_world_def ex_self_def ex_robot_def torque_off_def s0_def
        ex_disconnect_calls_def)
  note b1 = disconnect_behaviour [of interrupting_world ex_self s0 "raise (LibraryError ''stop'')"]
  note b2 = disconnect_behaviour [of ex_world ex_self s_off "raise (LibraryError ''stop'')"]
  note b3 = disconnect_behaviour [of ex_world ex_self s0 "raise (LibraryError ''stop'')"]
  note b4 = disconnect_behaviour [of failing_world ex_self s0 "raise (LibraryError ''stop'')"]
  from b1 i have 1: "\<not> is_Exception KeyboardInterrupt" by blast
  from b2 off have 2: "disconnect ex_world ex_self s_off = (Inr (), s_off)" by blast
  from b4 on have "disconnect failing_world ex_self s0
      = (case run_calls failing_world
                (map (torque_off failing_world) (follower_arms (robot ex_self)) @ [RobotDisconnect])
                (calls s0) of
           (None, h) \<Rightarrow> (Inr (), \<lparr>is_connected = False, calls = h\<rparr>)
         | (Some e, h) \<Rightarrow>
             (if is_Exception e then Inr () else Inl e, \<lparr>is_connected = True, calls = h\<rparr>))"
    by blast
  then have f: "disconnect failing_world ex_self s0
       = (Inr (), \<lparr>is_connected = True, calls = ex_disconnect_calls\<rparr>)"
    by (simp add: rc)
  have nc: "\<not> is_connected (snd (disconnect ex_world ex_self s0))" by (simp add: ex_disconnect)
  from b3 nc have 3: "disconnect ex_world ex_self (snd (disconnect ex_world ex_self s0))
     = (Inr (), snd (disconnect ex_world ex_self s0))" by blast
  then have 4: "disconnect ex_world ex_self \<lparr>is_connected = False, calls = ex_disconnect_calls\<rparr>
       = (Inr (), \<lparr>is_connected = False, calls = ex_disconnect_calls\<rparr>)"
    by (simp add: ex_disconnect)
  from b2 ex_try_part have "with_activate ex_world ex_self (raise (LibraryError ''stop'')) s_off
     = (case disconnect ex_world ex_self
               \<lparr>is_connected = True, calls = ex_connect_calls @ ex_initial_calls\<rparr> of
          (Inl e, s2) \<Rightarrow> (Inl e, s2)
        | (Inr u, s2) \<Rightarrow> (Inl (LibraryError ''stop''), s2))"
    by blast
  then have 5: "with_activate ex_world ex_self (raise (LibraryError ''stop'')) s_off
       = (Inl (LibraryError ''stop''),
          \<lparr>is_connected = False,
           calls = (ex_connect_calls @ ex_initial_calls) @ ex_disconnect_calls\<rparr>)"
    by (simp add: ex_disconnect_after)
  show ?thesis using i 1 off 2 on rc f ex_disconnect nc 4 ex_try_part 5 by blast
qed

end
